theory Spec2Isabelle
  imports Main "HOL-Library.Sublist"
begin

section \<open>JavaScript strings\<close>

text \<open>
  A JavaScript string is a sequence of UTF-16 code units. It is modelled as a list of
  code-unit values; \<open>js\<close> turns an ASCII literal into such a list, so that
  \<open>js ''<think>''\<close> is the string \<^verbatim>\<open>'<think>'\<close> of the source.
\<close>

type_synonym jsstring = "nat list"

definition js :: "string \<Rightarrow> jsstring" where
  "js s = map of_char s"

text \<open>\<^verbatim>\<open>s.startsWith(t)\<close>\<close>

definition startsWith :: "jsstring \<Rightarrow> jsstring \<Rightarrow> bool" where
  "startsWith s t = prefix t s"

text \<open>
  The regular-expression class \<^verbatim>\<open>\s\<close> (also the characters removed by
  \<^verbatim>\<open>String.prototype.trim\<close>): tab, line feed, vertical tab, form feed, carriage
  return, space, no-break space, U+1680, U+2000 to U+200A, U+2028, U+2029, U+202F, U+205F,
  U+3000 and U+FEFF.
\<close>

definition is_space :: "nat \<Rightarrow> bool" where
  "is_space c \<longleftrightarrow>
     c = 9 \<or> c = 10 \<or> c = 11 \<or> c = 12 \<or> c = 13 \<or> c = 32 \<or> c = 160 \<or> c = 5760 \<or>
     (8192 \<le> c \<and> c \<le> 8202) \<or> c = 8232 \<or> c = 8233 \<or> c = 8239 \<or> c = 8287 \<or>
     c = 12288 \<or> c = 65279"

definition is_word :: "nat \<Rightarrow> bool" where
  "is_word c \<longleftrightarrow> (48 \<le> c \<and> c \<le> 57) \<or> (65 \<le> c \<and> c \<le> 90) \<or> c = 95 \<or> (97 \<le> c \<and> c \<le> 122)"

text \<open>\<^verbatim>\<open>s.trim()\<close>\<close>

definition trim :: "jsstring \<Rightarrow> jsstring" where
  "trim s = rev (dropWhile is_space (rev (dropWhile is_space s)))"

text \<open>
  \<^verbatim>\<open>s.toLowerCase()\<close>, on the ASCII letters. The source only uses it before
  \<^verbatim>\<open>includes('model')\<close> and \<^verbatim>\<open>includes('content_filter')\<close> and on header names
  (ASCII tokens). Outside ASCII, lower-casing produces an ASCII letter only from U+212A
  (\<^verbatim>\<open>k\<close>) and from U+0130 (\<^verbatim>\<open>i\<close> followed by U+0307); neither can be part of an
  occurrence of these two words, so the two tests are the same with this definition.
\<close>

definition toLowerCase :: "jsstring \<Rightarrow> jsstring" where
  "toLowerCase s = map (\<lambda>c. if 65 \<le> c \<and> c \<le> 90 then c + 32 else c) s"

fun jsIncludes :: "jsstring \<Rightarrow> jsstring \<Rightarrow> bool" where
  "jsIncludes [] pat = (pat = [])"
| "jsIncludes (c # cs) pat = (startsWith (c # cs) pat \<or> jsIncludes cs pat)"

section \<open>Response types (types.ts)\<close>

text \<open>Values of type \<^verbatim>\<open>Record<string, any>\<close> are only copied, never inspected.\<close>

typedecl json_any

record FunctionCall =
  fc_name :: jsstring
  fc_arguments :: jsstring

record ToolFunction =
  tf_name :: jsstring
  tf_arguments :: jsstring

record ToolCall =
  tc_id :: jsstring
  tc_type :: jsstring
  tc_function :: ToolFunction

record CompletionUsage =
  completion_tokens :: int
  prompt_tokens :: int
  total_tokens :: int
  prompt_tokens_details :: "json_any option"

record ChoiceDelta =
  d_content :: "jsstring option"
  d_function_call :: "FunctionCall option"
  d_role :: "jsstring option"
  d_tool_calls :: "ToolCall list option"

record ChatCompletionMessage =
  m_role :: jsstring
  m_content :: "jsstring option"
  m_function_call :: "FunctionCall option"
  m_tool_calls :: "ToolCall list option"

record Choice =
  index :: int
  message :: "ChatCompletionMessage option"
  delta :: "ChoiceDelta option"
  finish_reason :: "jsstring option"
  logprobs :: "json_any option"

record ChatCompletion =
  c_id :: jsstring
  c_created :: int
  c_model :: jsstring
  c_choices :: "Choice list"
  c_object :: jsstring
  c_system_fingerprint :: "jsstring option"
  c_usage :: "CompletionUsage option"

record ChatCompletionChunk =
  k_id :: jsstring
  k_created :: int
  k_model :: jsstring
  k_choices :: "Choice list"
  k_object :: jsstring
  k_system_fingerprint :: "jsstring option"

text \<open>
  Truthiness of an optional string, as tested by \<^verbatim>\<open>if (choice.finish_reason)\<close> and
  \<^verbatim>\<open>choice.delta.content\<close>: absent and the empty string are both falsy.
\<close>

definition truthy :: "jsstring option \<Rightarrow> bool" where
  "truthy s = (case s of None \<Rightarrow> False | Some t \<Rightarrow> t \<noteq> [])"

section \<open>The streaming filter (createFilteredStreamGenerator)\<close>

text \<open>
  The variables the generator keeps for the whole stream: the \<^verbatim>\<open>StreamingState\<close>
  object and the counters declared beside it. The carry-over \<^verbatim>\<open>buffer\<close> is kept
  next to this record. The newline counter is a JavaScript number that is only compared
  with 2; it is a natural number here.
\<close>

record FilterState =
  isReasoning :: bool
  isSer :: bool
  consecutiveNewlines :: nat
  lastCharWasSpace :: bool
  streamStarted :: bool

definition initialState :: FilterState where
  "initialState = \<lparr>isReasoning = False, isSer = False, consecutiveNewlines = 0,
     lastCharWasSpace = False, streamStarted = False\<rparr>"

text \<open>Prepending text to the \<^verbatim>\<open>outputContent\<close> of the rest of a scan.\<close>

fun emit :: "jsstring \<Rightarrow> FilterState \<times> jsstring \<times> jsstring \<Rightarrow> FilterState \<times> jsstring \<times> jsstring" where
  "emit s (st, out, rest) = (st, s @ out, rest)"

text \<open>
  The \<^verbatim>\<open>while (processedLen < buffer.length)\<close> loop. The argument is
  \<^verbatim>\<open>remaining = buffer.slice(processedLen)\<close>; the result is the final state, the
  \<^verbatim>\<open>outputContent\<close> produced and \<^verbatim>\<open>buffer.slice(processedLen)\<close> at the exit
  of the loop, which becomes the new buffer.
\<close>

function scan :: "FilterState \<Rightarrow> jsstring \<Rightarrow> FilterState \<times> jsstring \<times> jsstring" where
  "scan st remaining =
    (if remaining = [] then (st, [], [])
     else if isReasoning st then
       (if startsWith remaining (js ''</think>'')
        then scan (st\<lparr>isReasoning := False, lastCharWasSpace := True\<rparr>) (drop 8 remaining)
        else if startsWith (js ''</think>'') remaining then (st, [], remaining)
        else scan st (drop 1 remaining))
     else if isSer st then
       (if startsWith remaining (js ''</ser>'')
        then scan (st\<lparr>isSer := False, lastCharWasSpace := True\<rparr>) (drop 6 remaining)
        else if startsWith (js ''</ser>'') remaining then (st, [], remaining)
        else scan st (drop 1 remaining))
     else if startsWith remaining (js ''<think>'')
       then scan (st\<lparr>isReasoning := True\<rparr>) (drop 7 remaining)
     else if startsWith remaining (js ''<ser>'')
       then scan (st\<lparr>isSer := True\<rparr>) (drop 5 remaining)
     else if startsWith (js ''<think>'') remaining \<or> startsWith (js ''<ser>'') remaining
       then (st, [], remaining)
     else
       (let char = hd remaining in
        if \<not> streamStarted st \<and> is_space char then scan st (drop 1 remaining)
        else
          (let st1 = st\<lparr>streamStarted := True\<rparr> in
           if char = 10 then
             emit (if consecutiveNewlines st1 + 1 \<le> 2 then [char] else [])
               (scan (st1\<lparr>consecutiveNewlines := consecutiveNewlines st1 + 1,
                          lastCharWasSpace := False\<rparr>) (drop 1 remaining))
           else if is_space char then
             emit (if \<not> lastCharWasSpace st1 then js '' '' else [])
               (scan (st1\<lparr>lastCharWasSpace := True\<rparr>) (drop 1 remaining))
           else
             emit [char]
               (scan (st1\<lparr>consecutiveNewlines := 0, lastCharWasSpace := False\<rparr>)
                  (drop 1 remaining)))))"
  by pat_completeness auto
termination
  by (relation "measure (\<lambda>(st, remaining). length remaining)")
     (auto simp: startsWith_def js_def prefix_def)

declare scan.simps [simp del]

text \<open>
  The body of \<^verbatim>\<open>for (const choice of chunk.choices)\<close> for one choice. The state is the
  pair of the stream variables and the buffer; the result also holds the choices pushed
  onto \<^verbatim>\<open>newChoices\<close> (none or one) and whether \<^verbatim>\<open>shouldYieldChunk\<close>
  was set. The object literals of the source list their fields, so a rebuilt choice has
  no \<^verbatim>\<open>message\<close>.
\<close>

definition rebuilt :: "Choice \<Rightarrow> ChoiceDelta \<Rightarrow> jsstring option \<Rightarrow> Choice" where
  "rebuilt choice d c =
     \<lparr>index = index choice, message = None,
      delta = Some \<lparr>d_content = c, d_function_call = d_function_call d,
                    d_role = d_role d, d_tool_calls = d_tool_calls d\<rparr>,
      finish_reason = finish_reason choice, logprobs = logprobs choice\<rparr>"

definition filterChoice ::
  "FilterState \<times> jsstring \<Rightarrow> Choice \<Rightarrow> (FilterState \<times> jsstring) \<times> Choice list \<times> bool" where
  "filterChoice s choice =
     (case s of (st, buffer) \<Rightarrow>
      (case delta choice of
         None \<Rightarrow> (s, [choice], True)
       | Some d \<Rightarrow>
          if truthy (d_content d) then
            (case scan st (buffer @ the (d_content d)) of (st', outputContent, buffer') \<Rightarrow>
               if outputContent \<noteq> [] then
                 ((st', buffer'), [rebuilt choice d (Some outputContent)], True)
               else if truthy (finish_reason choice) then
                 ((st', buffer'), [rebuilt choice d None], True)
               else ((st', buffer'), [], False))
          else (s, [choice], True)))"

text \<open>The loop over the choices of one chunk: \<^verbatim>\<open>newChoices\<close> and \<^verbatim>\<open>shouldYieldChunk\<close>.\<close>

fun filterChoices ::
  "FilterState \<times> jsstring \<Rightarrow> Choice list \<Rightarrow> (FilterState \<times> jsstring) \<times> Choice list \<times> bool" where
  "filterChoices s [] = (s, [], False)"
| "filterChoices s (choice # rest) =
     (case filterChoice s choice of (s1, pushed, y1) \<Rightarrow>
      (case filterChoices s1 rest of (s2, newChoices, y2) \<Rightarrow>
         (s2, pushed @ newChoices, y1 \<or> y2)))"

text \<open>The loop over the chunks of the stream; the result is the list of yielded chunks.\<close>

fun filterChunks ::
  "FilterState \<times> jsstring \<Rightarrow> ChatCompletionChunk list \<Rightarrow> ChatCompletionChunk list" where
  "filterChunks s [] = []"
| "filterChunks s (chunk # rest) =
     (case filterChoices s (k_choices chunk) of (s1, newChoices, shouldYieldChunk) \<Rightarrow>
        (if shouldYieldChunk then [chunk\<lparr>k_choices := newChoices\<rparr>] else [])
          @ filterChunks s1 rest)"

definition createFilteredStreamGenerator ::
  "ChatCompletionChunk list \<Rightarrow> ChatCompletionChunk list" where
  "createFilteredStreamGenerator streamIterable = filterChunks (initialState, []) streamIterable"

text \<open>
  What a consumer sees as text: the \<^verbatim>\<open>delta.content\<close> strings of a chunk sequence,
  in order, concatenated (an absent content contributes nothing).
\<close>

definition choiceText :: "Choice \<Rightarrow> jsstring" where
  "choiceText choice =
     (case delta choice of None \<Rightarrow> []
      | Some d \<Rightarrow> (case d_content d of None \<Rightarrow> [] | Some c \<Rightarrow> c))"

definition contentText :: "ChatCompletionChunk list \<Rightarrow> jsstring" where
  "contentText chunks = concat (map choiceText (concat (map k_choices chunks)))"

text \<open>A chunk that carries one text fragment: one choice, index 0, only \<^verbatim>\<open>delta.content\<close> set.\<close>

definition textChoice :: "int \<Rightarrow> jsstring \<Rightarrow> Choice" where
  "textChoice i fragment =
     \<lparr>index = i, message = None,
      delta = Some \<lparr>d_content = Some fragment, d_function_call = None, d_role = None,
                    d_tool_calls = None\<rparr>,
      finish_reason = None, logprobs = None\<rparr>"

definition chunkOf :: "Choice list \<Rightarrow> ChatCompletionChunk" where
  "chunkOf cs = \<lparr>k_id = [], k_created = 0, k_model = [], k_choices = cs,
     k_object = js ''chat.completion.chunk'', k_system_fingerprint = None\<rparr>"

definition textChunk :: "jsstring \<Rightarrow> ChatCompletionChunk" where
  "textChunk fragment = chunkOf [textChoice 0 fragment]"

text \<open>A choice that only announces the role, as the first chunk of a completion does.\<close>

definition roleChoice :: "int \<Rightarrow> Choice" where
  "roleChoice i =
     \<lparr>index = i, message = None,
      delta = Some \<lparr>d_content = None, d_function_call = None, d_role = Some (js ''assistant''),
                    d_tool_calls = None\<rparr>,
      finish_reason = None, logprobs = None\<rparr>"


section \<open>The non-streaming filter (filterThinkSerBlocks, filterCompletion)\<close>

text \<open>
  The regular expressions of \<^verbatim>\<open>filterThinkSerBlocks\<close> are written out as the scans
  that \<^verbatim>\<open>String.prototype.replace\<close> performs with a global pattern: at each position,
  left to right, try to match; on a match emit the replacement and go on after the
  match, otherwise copy one code unit and go on at the next position.

  \<open>afterFirst pat s\<close> is the text after the first occurrence of \<open>pat\<close> in \<open>s\<close>;
  \<open>matchBlock\<close> matches \<^verbatim>\<open>/open[\s\S]*?close/\<close> at the start of \<open>s\<close> (the lazy
  star stops at the first closing tag) and returns the text after the match.
\<close>

fun afterFirst :: "jsstring \<Rightarrow> jsstring \<Rightarrow> jsstring option" where
  "afterFirst pat [] = (if pat = [] then Some [] else None)"
| "afterFirst pat (c # cs) =
     (if startsWith (c # cs) pat then Some (drop (length pat) (c # cs)) else afterFirst pat cs)"

definition matchBlock :: "jsstring \<Rightarrow> jsstring \<Rightarrow> jsstring \<Rightarrow> jsstring option" where
  "matchBlock opening closing s =
     (if startsWith s opening then afterFirst closing (drop (length opening) s) else None)"

lemma afterFirst_length: "afterFirst pat s = Some r \<Longrightarrow> length r \<le> length s"
  by (induction s) (auto split: if_splits)

lemma matchBlock_length:
  "matchBlock opening closing s = Some r \<Longrightarrow> opening \<noteq> [] \<Longrightarrow> length r < length s"
proof -
  assume m: "matchBlock opening closing s = Some r" and ne: "opening \<noteq> []"
  then have p: "prefix opening s" and a: "afterFirst closing (drop (length opening) s) = Some r"
    by (auto simp: matchBlock_def startsWith_def split: if_splits)
  from p have "length opening \<le> length s" by (rule prefix_length_le)
  moreover from ne have "0 < length opening" by simp
  moreover from afterFirst_length[OF a] have "length r \<le> length s - length opening" by simp
  ultimately show ?thesis by linarith
qed

text \<open>\<^verbatim>\<open>text.replace(/<think>[\s\S]*?<\/think>/g, '')\<close>\<close>

function removeThink :: "jsstring \<Rightarrow> jsstring" where
  "removeThink s =
     (if s = [] then []
      else (case matchBlock (js ''<think>'') (js ''</think>'') s of
              Some rest \<Rightarrow> removeThink rest
            | None \<Rightarrow> hd s # removeThink (tl s)))"
  by pat_completeness auto
termination
  by (relation "measure length") (auto dest!: matchBlock_length simp: js_def)

text \<open>\<^verbatim>\<open>result.replace(/<ser>[\s\S]*?<\/ser>/g, '')\<close>\<close>

function removeSer :: "jsstring \<Rightarrow> jsstring" where
  "removeSer s =
     (if s = [] then []
      else (case matchBlock (js ''<ser>'') (js ''</ser>'') s of
              Some rest \<Rightarrow> removeSer rest
            | None \<Rightarrow> hd s # removeSer (tl s)))"
  by pat_completeness auto
termination
  by (relation "measure length") (auto dest!: matchBlock_length simp: js_def)

text \<open>
  \<^verbatim>\<open>result.replace(/(\w)-\s*\n\s*(\w)/g, '$1$2')\<close>. After the hyphen the two greedy
  \<^verbatim>\<open>\s*\<close> and the \<^verbatim>\<open>\n\<close> between them match exactly when the whole run of
  white space that follows contains a line feed and is followed by a word character
  (a word character is not white space, so the run is taken whole).
\<close>

definition matchHyphen :: "jsstring \<Rightarrow> (nat \<times> nat \<times> jsstring) option" where
  "matchHyphen s =
     (case s of
        c1 # h # t \<Rightarrow>
          if is_word c1 \<and> h = 45 then
            (let ws = takeWhile is_space t; r = dropWhile is_space t in
             if 10 \<in> set ws \<and> r \<noteq> [] \<and> is_word (hd r) then Some (c1, hd r, tl r) else None)
          else None
      | _ \<Rightarrow> None)"

lemma matchHyphen_length: "matchHyphen s = Some (c1, c2, r) \<Longrightarrow> length r < length s"
  apply (auto simp: matchHyphen_def Let_def split: list.splits if_splits)
  by (metis length_dropWhile_le length_tl less_Suc_eq_le diff_le_self le_trans less_Suc_eq)

function rejoinHyphens :: "jsstring \<Rightarrow> jsstring" where
  "rejoinHyphens s =
     (if s = [] then []
      else (case matchHyphen s of
              Some (c1, c2, rest) \<Rightarrow> c1 # c2 # rejoinHyphens rest
            | None \<Rightarrow> hd s # rejoinHyphens (tl s)))"
  by pat_completeness auto
termination
  by (relation "measure length") (auto dest!: matchHyphen_length)

text \<open>\<^verbatim>\<open>result.replace(/\n{3,}/g, '\n\n')\<close>\<close>

function collapseNewlines :: "jsstring \<Rightarrow> jsstring" where
  "collapseNewlines s =
     (if s = [] then []
      else if 3 \<le> length (takeWhile (\<lambda>c. c = 10) s)
        then [10, 10] @ collapseNewlines (dropWhile (\<lambda>c. c = 10) s)
      else hd s # collapseNewlines (tl s))"
  by pat_completeness auto
termination
  apply (relation "measure length")
    apply (auto)
  subgoal for s by (cases s) (auto simp: less_Suc_eq_le length_dropWhile_le split: if_splits)
  done

text \<open>\<^verbatim>\<open>result.replace(/ {2,}/g, ' ')\<close>\<close>

function collapseSpaces :: "jsstring \<Rightarrow> jsstring" where
  "collapseSpaces s =
     (if s = [] then []
      else if 2 \<le> length (takeWhile (\<lambda>c. c = 32) s)
        then [32] @ collapseSpaces (dropWhile (\<lambda>c. c = 32) s)
      else hd s # collapseSpaces (tl s))"
  by pat_completeness auto
termination
  apply (relation "measure length")
    apply (auto)
  subgoal for s by (cases s) (auto simp: less_Suc_eq_le length_dropWhile_le split: if_splits)
  done

declare removeThink.simps [simp del] removeSer.simps [simp del] rejoinHyphens.simps [simp del]
  collapseNewlines.simps [simp del] collapseSpaces.simps [simp del]

definition filterThinkSerBlocks :: "jsstring option \<Rightarrow> jsstring option" where
  "filterThinkSerBlocks text =
     (if \<not> truthy text then text
      else Some (trim (collapseSpaces (collapseNewlines (rejoinHyphens
             (removeSer (removeThink (the text))))))))"

definition filterCompletion :: "ChatCompletion \<Rightarrow> ChatCompletion" where
  "filterCompletion completion =
     completion\<lparr>c_choices :=
       map (\<lambda>choice.
              case message choice of
                None \<Rightarrow> choice
              | Some m \<Rightarrow>
                 if truthy (m_content m)
                 then choice\<lparr>message := Some (m\<lparr>m_content := filterThinkSerBlocks (m_content m)\<rparr>)\<rparr>
                 else choice)
           (c_choices completion)\<rparr>"

section \<open>Error classes (errors.ts)\<close>

text \<open>
  An error object: the class is recorded in \<open>e_name\<close>, as each constructor of the
  source sets \<^verbatim>\<open>this.name\<close>; the fields that only some classes declare are optional.
  The classes modelled are those that the client throws for a response or a stream; none
  of their constructors sets \<^verbatim>\<open>body\<close>, which is left out.
  \<^verbatim>\<open>parseInt(s, 10)\<close> skips leading white space, reads an optional sign and the
  longest run of decimal digits, and gives \<^verbatim>\<open>NaN\<close> when there is no digit; it never
  throws. Its value is a Number, an IEEE 754 double: the integer that the digits denote,
  rounded to the nearest double (ties to the even significand), \<^verbatim>\<open>Infinity\<close> from
  \<open>2 ^ 1024 - 2 ^ 970\<close> on, and \<^verbatim>\<open>-0\<close> for a negative zero. So the values are \<open>Num n\<close>
  for an integer \<open>n\<close> that a double holds, the two infinities, the negative zero and
  \<^verbatim>\<open>NaN\<close>. (For more than 20 significant digits ECMAScript lets an engine replace the
  later digits by zeros before rounding; the model rounds the exact value.)
\<close>

datatype js_number = Num int | NegZero | PosInfinity | NegInfinity | NaN

definition is_digit :: "nat \<Rightarrow> bool" where
  "is_digit c \<longleftrightarrow> 48 \<le> c \<and> c \<le> 57"

definition digitsValue :: "jsstring \<Rightarrow> nat" where
  "digitsValue ds = foldl (\<lambda>n c. 10 * n + (c - 48)) 0 ds"

text \<open>
  The number of binary digits of a natural number, and the rounding of a natural number
  to a double: exact below \<open>2 ^ 53\<close>; above, the 53 leading binary digits are kept and
  rounded to nearest, ties to even; \<open>None\<close> when the result is beyond the largest double.
\<close>

fun bitLength :: "nat \<Rightarrow> nat" where
  "bitLength n = (if n = 0 then 0 else Suc (bitLength (n div 2)))"

declare bitLength.simps [simp del]

definition roundToDouble :: "nat \<Rightarrow> nat option" where
  "roundToDouble n =
     (if n < 2 ^ 53 then Some n
      else
        (let shift = bitLength n - 53;
             q = n div 2 ^ shift;
             r = n mod 2 ^ shift;
             q' = (if 2 ^ shift < 2 * r \<or> (2 * r = 2 ^ shift \<and> odd q) then q + 1 else q)
         in if 2 ^ 1024 \<le> q' * 2 ^ shift then None else Some (q' * 2 ^ shift)))"

definition parseInt10 :: "jsstring \<Rightarrow> js_number" where
  "parseInt10 s =
     (let t = dropWhile is_space s;
          negative = (t \<noteq> [] \<and> hd t = 45);
          u = (if t \<noteq> [] \<and> (hd t = 43 \<or> hd t = 45) then tl t else t);
          ds = takeWhile is_digit u
      in if ds = [] then NaN
         else
           (case roundToDouble (digitsValue ds) of
              None \<Rightarrow> (if negative then NegInfinity else PosInfinity)
            | Some m \<Rightarrow>
                (if m = 0 \<and> negative then NegZero
                 else Num (if negative then - int m else int m))))"

record HAIError =
  e_name :: jsstring
  e_message :: jsstring
  e_statusCode :: "int option"
  e_headers :: "(jsstring \<rightharpoonup> jsstring) option"
  e_param :: "jsstring option"
  e_code :: "jsstring option"
  e_type :: "jsstring option"
  e_retryAfter :: "js_number option"

definition new_HAIError ::
  "jsstring \<Rightarrow> int option \<Rightarrow> (jsstring \<rightharpoonup> jsstring) option \<Rightarrow> HAIError" where
  "new_HAIError msg statusCode headers =
     \<lparr>e_name = js ''HAIError'', e_message = msg, e_statusCode = statusCode,
      e_headers = headers, e_param = None, e_code = None, e_type = None,
      e_retryAfter = None\<rparr>"

definition new_AuthenticationError ::
  "jsstring \<Rightarrow> int option \<Rightarrow> (jsstring \<rightharpoonup> jsstring) option \<Rightarrow> HAIError" where
  "new_AuthenticationError msg statusCode headers =
     (new_HAIError msg statusCode headers)\<lparr>e_name := js ''AuthenticationError''\<rparr>"

definition new_InvalidAPIKeyError ::
  "int option \<Rightarrow> (jsstring \<rightharpoonup> jsstring) option \<Rightarrow> HAIError" where
  "new_InvalidAPIKeyError statusCode headers =
     (new_AuthenticationError
        (js ''Invalid API key. Check your API key at https://helpingai.co/dashboard'')
        statusCode headers)\<lparr>e_name := js ''InvalidAPIKeyError''\<rparr>"

definition new_InvalidRequestError ::
  "jsstring \<Rightarrow> jsstring option \<Rightarrow> jsstring option \<Rightarrow> int option \<Rightarrow>
   (jsstring \<rightharpoonup> jsstring) option \<Rightarrow> HAIError" where
  "new_InvalidRequestError msg param code statusCode headers =
     (new_HAIError msg statusCode headers)
       \<lparr>e_name := js ''InvalidRequestError'', e_param := param, e_code := code\<rparr>"

definition new_InvalidModelError ::
  "jsstring \<Rightarrow> int option \<Rightarrow> (jsstring \<rightharpoonup> jsstring) option \<Rightarrow> HAIError" where
  "new_InvalidModelError model statusCode headers =
     (new_InvalidRequestError
        (js ''Model '' @ [39] @ model @ [39] @ js '' not found. Available models can be found at ''
           @ js ''https://api.helpingai.co/v1/models'')
        (Some (js ''model'')) None statusCode headers)\<lparr>e_name := js ''InvalidModelError''\<rparr>"

definition getRetryAfterFromHeaders :: "HAIError \<Rightarrow> js_number option" where
  "getRetryAfterFromHeaders this =
     (case e_headers this of
        None \<Rightarrow> None
      | Some h \<Rightarrow> (case h (js ''retry-after'') of
                     None \<Rightarrow> None
                   | Some v \<Rightarrow> Some (parseInt10 v)))"

definition new_RateLimitError ::
  "jsstring \<Rightarrow> int option \<Rightarrow> (jsstring \<rightharpoonup> jsstring) option \<Rightarrow> HAIError" where
  "new_RateLimitError msg statusCode headers =
     (let this = (new_HAIError msg statusCode headers)\<lparr>e_name := js ''RateLimitError''\<rparr>
      in this\<lparr>e_retryAfter := getRetryAfterFromHeaders this\<rparr>)"

definition new_TooManyRequestsError ::
  "int option \<Rightarrow> (jsstring \<rightharpoonup> jsstring) option \<Rightarrow> HAIError" where
  "new_TooManyRequestsError statusCode headers =
     (new_RateLimitError (js ''Too many requests'') statusCode headers)
       \<lparr>e_name := js ''TooManyRequestsError''\<rparr>"

definition new_ServiceUnavailableError ::
  "int option \<Rightarrow> (jsstring \<rightharpoonup> jsstring) option \<Rightarrow> HAIError" where
  "new_ServiceUnavailableError statusCode headers =
     (new_HAIError (js ''Service temporarily unavailable'') statusCode headers)
       \<lparr>e_name := js ''ServiceUnavailableError''\<rparr>"

definition new_APIError ::
  "jsstring \<Rightarrow> jsstring option \<Rightarrow> jsstring option \<Rightarrow> int option \<Rightarrow>
   (jsstring \<rightharpoonup> jsstring) option \<Rightarrow> HAIError" where
  "new_APIError msg code type statusCode headers =
     (new_HAIError msg statusCode headers)
       \<lparr>e_name := js ''APIError'', e_code := code, e_type := type\<rparr>"

definition new_ServerError ::
  "jsstring \<Rightarrow> int option \<Rightarrow> (jsstring \<rightharpoonup> jsstring) option \<Rightarrow> HAIError" where
  "new_ServerError msg statusCode headers =
     (new_APIError msg (Some (js ''server_error'')) None statusCode headers)
       \<lparr>e_name := js ''ServerError''\<rparr>"

definition new_ContentFilterError ::
  "jsstring \<Rightarrow> int option \<Rightarrow> (jsstring \<rightharpoonup> jsstring) option \<Rightarrow> HAIError" where
  "new_ContentFilterError msg statusCode headers =
     (new_InvalidRequestError msg None (Some (js ''content_filter'')) statusCode headers)
       \<lparr>e_name := js ''ContentFilterError''\<rparr>"

section \<open>The error classifier (handleErrorResponse)\<close>

text \<open>
  The parsed error body: its \<^verbatim>\<open>error\<close> member is an object, a string, or anything
  else (absent, null). \<open>r_json = None\<close> stands for a body that \<^verbatim>\<open>response.json()\<close>
  rejects. \<open>firstQuoted\<close> is \<^verbatim>\<open>errorMessage.match(/'([^']*)'/)\<close>: the first
  group of the first match, when there is one.
\<close>

datatype error_field =
    ErrorObject "jsstring option" "jsstring option" "jsstring option"
  | ErrorString jsstring
  | ErrorOther

record ErrorResponse =
  er_error :: error_field
  er_message :: "jsstring option"
  er_type :: "jsstring option"
  er_code :: "jsstring option"

record Response =
  r_status :: int
  r_headers :: "(jsstring \<times> jsstring) list"
  r_json :: "ErrorResponse option"

definition extractHeaders :: "Response \<Rightarrow> (jsstring \<rightharpoonup> jsstring)" where
  "extractHeaders response =
     foldl (\<lambda>headers (key, v). headers(toLowerCase key \<mapsto> v)) Map.empty (r_headers response)"

definition orElse :: "jsstring option \<Rightarrow> jsstring \<Rightarrow> jsstring" where
  "orElse s d = (if truthy s then the s else d)"

definition firstQuoted :: "jsstring \<Rightarrow> jsstring option" where
  "firstQuoted s =
     (case dropWhile (\<lambda>c. c \<noteq> 39) s of
        [] \<Rightarrow> None
      | q # t \<Rightarrow> if 39 \<in> set t then Some (takeWhile (\<lambda>c. c \<noteq> 39) t) else None)"

definition errorEnvelope :: "Response \<Rightarrow> jsstring \<times> jsstring option \<times> jsstring option" where
  "errorEnvelope response =
     (let errorData =
            (case r_json response of
               Some d \<Rightarrow> d
             | None \<Rightarrow> \<lparr>er_error = ErrorObject (Some (js ''Unknown error occurred'')) None None,
                        er_message = None, er_type = None, er_code = None\<rparr>)
      in case er_error errorData of
           ErrorObject m t c \<Rightarrow> (orElse m (js ''Unknown error''), t, c)
         | ErrorString s \<Rightarrow> (s, None, None)
         | ErrorOther \<Rightarrow>
             (orElse (er_message errorData) (js ''Unknown error''), er_type errorData,
              er_code errorData))"

definition handleErrorResponse :: "Response \<Rightarrow> HAIError" where
  "handleErrorResponse response =
     (case errorEnvelope response of (errorMessage, errorType, errorCode) \<Rightarrow>
      (let status = r_status response; headers = extractHeaders response in
       if status = 401 then new_InvalidAPIKeyError (Some status) (Some headers)
       else if status = 400 then
         (if jsIncludes (toLowerCase errorMessage) (js ''model'') then
            new_InvalidModelError
              (case firstQuoted errorMessage of Some m \<Rightarrow> m | None \<Rightarrow> js ''Unknown model'')
              (Some status) (Some headers)
          else new_InvalidRequestError errorMessage None None (Some status) (Some headers))
       else if status = 429 then new_TooManyRequestsError (Some status) (Some headers)
       else if status = 503 then new_ServiceUnavailableError (Some status) (Some headers)
       else if status \<ge> 500 then new_ServerError errorMessage (Some status) (Some headers)
       else if truthy errorType \<and> jsIncludes (toLowerCase (the errorType)) (js ''content_filter'')
         then new_ContentFilterError errorMessage (Some status) (Some headers)
       else new_APIError errorMessage errorCode errorType (Some status) (Some headers)))"

section \<open>The event framer (handleStreamResponse)\<close>

text \<open>
  The reads are the texts that \<^verbatim>\<open>decoder.decode(value, { stream: true })\<close> gives for
  the successive results of \<^verbatim>\<open>reader.read()\<close>. \<^verbatim>\<open>JSON.parse\<close> is a parameter:
  it returns the parsed value or the error it throws, rendered as a string. The statements
  that build the chunk from the parsed value by property access are the parameter
  \<open>buildChunk\<close>; they can throw too (a member of \<^verbatim>\<open>null\<close>), inside the same
  \<^verbatim>\<open>try\<close>. The outcome of a loop is \<open>Continue\<close> (the loop ran to its end),
  \<open>Return\<close> (the generator returned) or \<open>Throw\<close>.
\<close>

text \<open>
  \<^verbatim>\<open>s.split(sep)\<close> for a separator of one code unit: the pieces between the
  separators, at least one piece (the last case of the inner \<open>case\<close> never arises).
\<close>

fun splitOn :: "nat \<Rightarrow> jsstring \<Rightarrow> jsstring list" where
  "splitOn sep [] = [[]]"
| "splitOn sep (c # cs) =
     (if c = sep then [] # splitOn sep cs
      else (case splitOn sep cs of piece # pieces \<Rightarrow> (c # piece) # pieces | [] \<Rightarrow> [[c]]))"

datatype outcome = Continue | Return | Throw HAIError

fun processLines ::
  "(jsstring \<Rightarrow> jsstring + 'j) \<Rightarrow> ('j \<Rightarrow> jsstring + ChatCompletionChunk) \<Rightarrow> jsstring list \<Rightarrow>
   ChatCompletionChunk list \<times> outcome" where
  "processLines JSON_parse buildChunk [] = ([], Continue)"
| "processLines JSON_parse buildChunk (line # lines) =
     (if trim line = [] then processLines JSON_parse buildChunk lines
      else if trim line = js ''data: [DONE]'' then ([], Return)
      else if startsWith line (js ''data: '') then
        (case JSON_parse (drop 6 line) of
           Inl error \<Rightarrow> ([], Throw (new_HAIError (js ''Error parsing stream: '' @ error) None None))
         | Inr data \<Rightarrow>
            (case buildChunk data of
               Inl error \<Rightarrow>
                 ([], Throw (new_HAIError (js ''Error parsing stream: '' @ error) None None))
             | Inr chunk \<Rightarrow>
                 (case processLines JSON_parse buildChunk lines of
                    (chunks, out) \<Rightarrow> (chunk # chunks, out))))
      else processLines JSON_parse buildChunk lines)"

text \<open>
  The \<^verbatim>\<open>while (true)\<close> loop over the reads: it breaks when the reader is done, which is
  the outcome \<open>Continue\<close> here. The generator then yields the chunks collected, and ends
  normally unless the loop threw.
\<close>

fun readLoop ::
  "(jsstring \<Rightarrow> jsstring + 'j) \<Rightarrow> ('j \<Rightarrow> jsstring + ChatCompletionChunk) \<Rightarrow> jsstring list \<Rightarrow>
   ChatCompletionChunk list \<times> outcome" where
  "readLoop JSON_parse buildChunk [] = ([], Continue)"
| "readLoop JSON_parse buildChunk (v # reads) =
     (case processLines JSON_parse buildChunk (splitOn 10 v) of
        (chunks, Continue) \<Rightarrow>
          (case readLoop JSON_parse buildChunk reads of
             (chunks', out) \<Rightarrow> (chunks @ chunks', out))
      | (chunks, out) \<Rightarrow> (chunks, out))"

definition handleStreamResponse ::
  "(jsstring \<Rightarrow> jsstring + 'j) \<Rightarrow> ('j \<Rightarrow> jsstring + ChatCompletionChunk) \<Rightarrow> jsstring list \<Rightarrow>
   ChatCompletionChunk list \<times> HAIError option" where
  "handleStreamResponse JSON_parse buildChunk reads =
     (case readLoop JSON_parse buildChunk reads of
        (chunks, Throw e) \<Rightarrow> (chunks, Some e)
      | (chunks, _) \<Rightarrow> (chunks, None))"

text \<open>
  A sample of the two parameters, for concrete streams. The payloads of the samples are
  \<^verbatim>\<open>{}\<close>, which \<^verbatim>\<open>JSON.parse\<close> reads as the empty object, and \<^verbatim>\<open>{\<close>, for which it
  throws a \<^verbatim>\<open>SyntaxError\<close>. The template \<^verbatim>\<open>${error}\<close> interpolates the whole text of
  that error, its name and the message of the engine, and the message differs between
  engines and versions: the text is the parameter \<open>errorText\<close>, and the samples hold for
  every value of it. The chunk is the one that the source builds from the empty object
  (every field defaulted, no choices).
\<close>

definition sampleParse :: "jsstring \<Rightarrow> jsstring \<Rightarrow> jsstring + unit" where
  "sampleParse errorText s = (if s = js ''{}'' then Inr () else Inl errorText)"

definition sampleBuild :: "unit \<Rightarrow> jsstring + ChatCompletionChunk" where
  "sampleBuild d = Inr (chunkOf [])"

text \<open>A sample completion and a sample error response, for concrete instances.\<close>

definition sampleCompletion :: ChatCompletion where
  "sampleCompletion =
     \<lparr>c_id = js ''cmpl-1'', c_created = 1700000000, c_model = js ''Dhanishtha-2.0-preview'',
      c_choices =
        [\<lparr>index = 0,
          message = Some \<lparr>m_role = js ''assistant'',
                           m_content = Some (js ''<think>plan</think>Hi  there''),
                           m_function_call = None, m_tool_calls = None\<rparr>,
          delta = None, finish_reason = Some (js ''stop''), logprobs = None\<rparr>,
         \<lparr>index = 1,
          message = Some \<lparr>m_role = js ''assistant'', m_content = None,
                           m_function_call = Some \<lparr>fc_name = js ''f'', fc_arguments = js ''{}''\<rparr>,
                           m_tool_calls = None\<rparr>,
          delta = None, finish_reason = Some (js ''function_call''), logprobs = None\<rparr>],
      c_object = js ''chat.completion'', c_system_fingerprint = None, c_usage = None\<rparr>"

definition modelNotFound :: Response where
  "modelNotFound =
     \<lparr>r_status = 400, r_headers = [],
      r_json = Some \<lparr>er_error = ErrorObject (Some (js ''Model '' @ [39] @ js ''gpt-x'' @ [39] @ js '' not found'')) None None,
                     er_message = None, er_type = None, er_code = None\<rparr>\<rparr>"

text \<open>
  Reading a chunk sequence by choice index: the text carried by the choices of index
  \<open>i\<close>, the sequence cut down to the choices of index \<open>i\<close>, and a renumbering of the
  choices. A choice is text-bearing when \<^verbatim>\<open>choice.delta && choice.delta.content\<close> is
  truthy.
\<close>

definition contentFor :: "int \<Rightarrow> ChatCompletionChunk list \<Rightarrow> jsstring" where
  "contentFor i chunks =
     concat (map choiceText (filter (\<lambda>choice. index choice = i) (concat (map k_choices chunks))))"

definition onlyIndex :: "int \<Rightarrow> ChatCompletionChunk list \<Rightarrow> ChatCompletionChunk list" where
  "onlyIndex i chunks =
     map (\<lambda>chunk. chunk\<lparr>k_choices := filter (\<lambda>choice. index choice = i) (k_choices chunk)\<rparr>) chunks"

definition reindex :: "(int \<Rightarrow> int) \<Rightarrow> ChatCompletionChunk \<Rightarrow> ChatCompletionChunk" where
  "reindex f chunk =
     chunk\<lparr>k_choices := map (\<lambda>choice. choice\<lparr>index := f (index choice)\<rparr>) (k_choices chunk)\<rparr>"

definition textBearing :: "Choice \<Rightarrow> bool" where
  "textBearing choice = (case delta choice of None \<Rightarrow> False | Some d \<Rightarrow> truthy (d_content d))"

definition interleaved :: "ChatCompletionChunk list" where
  "interleaved = [chunkOf [textChoice 0 (js ''<think>'')], chunkOf [textChoice 1 (js ''hello'')]]"










text \<open>
  The emission policy of the generator, stated on the text alone. \<open>emitted t\<close> is what
  the scan loop writes when it reads \<open>t\<close> at once from the initial state; the filtered
  text of a fragment that arrives after the text \<open>earlier\<close> is what the fragment adds to
  it. A choice that is not text-bearing is kept as it is; a text-bearing choice is kept
  with its filtered text when that is not empty, with no content when it is empty and the
  finish reason is truthy, and dropped otherwise. A chunk is emitted, with the kept
  choices, when at least one choice is kept. \<open>earlier\<close> is all the text of the choices read
  so far, of any index.
\<close>

definition emitted :: "jsstring \<Rightarrow> jsstring" where
  "emitted t = fst (snd (scan initialState t))"

definition filteredText :: "jsstring \<Rightarrow> jsstring \<Rightarrow> jsstring" where
  "filteredText earlier fragment = drop (length (emitted earlier)) (emitted (earlier @ fragment))"

definition withContent :: "Choice \<Rightarrow> jsstring option \<Rightarrow> Choice" where
  "withContent choice content =
     \<lparr>index = index choice, message = None,
      delta = Some \<lparr>d_content = content,
                    d_function_call = d_function_call (the (delta choice)),
                    d_role = d_role (the (delta choice)),
                    d_tool_calls = d_tool_calls (the (delta choice))\<rparr>,
      finish_reason = finish_reason choice, logprobs = logprobs choice\<rparr>"

definition keptChoice :: "jsstring \<Rightarrow> Choice \<Rightarrow> Choice list" where
  "keptChoice earlier choice =
     (if \<not> textBearing choice then [choice]
      else if filteredText earlier (choiceText choice) \<noteq> []
        then [withContent choice (Some (filteredText earlier (choiceText choice)))]
      else if truthy (finish_reason choice) then [withContent choice None]
      else [])"

fun keptChoices :: "jsstring \<Rightarrow> Choice list \<Rightarrow> Choice list" where
  "keptChoices earlier [] = []"
| "keptChoices earlier (choice # rest) =
     keptChoice earlier choice @ keptChoices (earlier @ choiceText choice) rest"

fun emittedChunks :: "jsstring \<Rightarrow> ChatCompletionChunk list \<Rightarrow> ChatCompletionChunk list" where
  "emittedChunks earlier [] = []"
| "emittedChunks earlier (chunk # rest) =
     (if keptChoices earlier (k_choices chunk) = [] then []
      else [chunk\<lparr>k_choices := keptChoices earlier (k_choices chunk)\<rparr>])
     @ emittedChunks (earlier @ concat (map choiceText (k_choices chunk))) rest"

text \<open>A choice that carries a text fragment and the finish reason \<^verbatim>\<open>stop\<close>.\<close>

definition finishChoice :: "jsstring \<Rightarrow> Choice" where
  "finishChoice fragment =
     \<lparr>index = 0, message = None,
      delta = Some \<lparr>d_content = Some fragment, d_function_call = None, d_role = None,
                    d_tool_calls = None\<rparr>,
      finish_reason = Some (js ''stop''), logprobs = None\<rparr>"


section \<open>Proof devices for the streaming filter\<close>

text \<open>
  What the last branch of the scan loop does with one ordinary character: the state after
  it and the text it appends to \<^verbatim>\<open>outputContent\<close>.
\<close>

definition charState :: "FilterState \<Rightarrow> nat \<Rightarrow> FilterState" where
  "charState st char =
     (if \<not> streamStarted st \<and> is_space char then st
      else if char = 10 then
        st\<lparr>streamStarted := True, consecutiveNewlines := consecutiveNewlines st + 1,
           lastCharWasSpace := False\<rparr>
      else if is_space char then st\<lparr>streamStarted := True, lastCharWasSpace := True\<rparr>
      else st\<lparr>streamStarted := True, consecutiveNewlines := 0, lastCharWasSpace := False\<rparr>)"

definition charOutput :: "FilterState \<Rightarrow> nat \<Rightarrow> jsstring" where
  "charOutput st char =
     (if \<not> streamStarted st \<and> is_space char then []
      else if char = 10 then (if consecutiveNewlines st + 1 \<le> 2 then [char] else [])
      else if is_space char then (if \<not> lastCharWasSpace st then js '' '' else [])
      else [char])"

text \<open>
  Feeding one piece of text to the generator state: append it to the buffer, scan, keep the
  unconsumed rest as the new buffer. A state is stable when its buffer is a rest that the
  scan left behind.
\<close>

definition feed :: "FilterState \<times> jsstring \<Rightarrow> jsstring \<Rightarrow> (FilterState \<times> jsstring) \<times> jsstring" where
  "feed s text =
     (case s of (st, buffer) \<Rightarrow>
        (case scan st (buffer @ text) of (st', out, buffer') \<Rightarrow> ((st', buffer'), out)))"

definition stable :: "FilterState \<times> jsstring \<Rightarrow> bool" where
  "stable s = (case s of (st, buffer) \<Rightarrow> scan st buffer = (st, [], buffer))"





fun nsA :: "nat \<Rightarrow> bool \<Rightarrow> jsstring \<Rightarrow> jsstring" where
  "nsA k b [] = []"
| "nsA k b (c # cs) =
     (if c = 10 then (if k < 2 then [10] else []) @ nsA (k + 1) False cs
      else if c = 32 then (if b then [] else [32]) @ nsA 0 True cs
      else c # nsA 0 False cs)"

section \<open>The scan loop, branch by branch\<close>

lemma emit_Nil [simp]: "emit [] t = t"
  by (cases t) simp

lemma emit_emit [simp]: "emit a (emit b t) = emit (a @ b) t"
  by (cases t) simp

lemma scan_Nil [simp]: "scan st [] = (st, [], [])"
  by (simp add: scan.simps)

lemma scan_close_think:
  "isReasoning st \<Longrightarrow> startsWith r (js ''</think>'') \<Longrightarrow>
   scan st r = scan (st\<lparr>isReasoning := False, lastCharWasSpace := True\<rparr>) (drop 8 r)"
  by (subst scan.simps) (auto simp: startsWith_def js_def)

lemma scan_pending_think:
  "isReasoning st \<Longrightarrow> \<not> startsWith r (js ''</think>'') \<Longrightarrow> startsWith (js ''</think>'') r \<Longrightarrow>
   scan st r = (st, [], r)"
  by (subst scan.simps) auto

lemma scan_skip_think:
  "isReasoning st \<Longrightarrow> r \<noteq> [] \<Longrightarrow> \<not> startsWith r (js ''</think>'') \<Longrightarrow>
   \<not> startsWith (js ''</think>'') r \<Longrightarrow> scan st r = scan st (drop 1 r)"
  by (subst scan.simps) auto

lemma scan_close_ser:
  "\<not> isReasoning st \<Longrightarrow> isSer st \<Longrightarrow> startsWith r (js ''</ser>'') \<Longrightarrow>
   scan st r = scan (st\<lparr>isSer := False, lastCharWasSpace := True\<rparr>) (drop 6 r)"
  by (subst scan.simps) (auto simp: startsWith_def js_def)

lemma scan_pending_ser:
  "\<not> isReasoning st \<Longrightarrow> isSer st \<Longrightarrow> \<not> startsWith r (js ''</ser>'') \<Longrightarrow>
   startsWith (js ''</ser>'') r \<Longrightarrow> scan st r = (st, [], r)"
  by (subst scan.simps) auto

lemma scan_skip_ser:
  "\<not> isReasoning st \<Longrightarrow> isSer st \<Longrightarrow> r \<noteq> [] \<Longrightarrow> \<not> startsWith r (js ''</ser>'') \<Longrightarrow>
   \<not> startsWith (js ''</ser>'') r \<Longrightarrow> scan st r = scan st (drop 1 r)"
  by (subst scan.simps) auto

lemma scan_open_think:
  "\<not> isReasoning st \<Longrightarrow> \<not> isSer st \<Longrightarrow> startsWith r (js ''<think>'') \<Longrightarrow>
   scan st r = scan (st\<lparr>isReasoning := True\<rparr>) (drop 7 r)"
  by (subst scan.simps) (auto simp: startsWith_def js_def)

lemma scan_open_ser:
  "\<not> isReasoning st \<Longrightarrow> \<not> isSer st \<Longrightarrow> \<not> startsWith r (js ''<think>'') \<Longrightarrow>
   startsWith r (js ''<ser>'') \<Longrightarrow> scan st r = scan (st\<lparr>isSer := True\<rparr>) (drop 5 r)"
  by (subst scan.simps) (auto simp: startsWith_def js_def)

lemma scan_pending_open:
  "\<not> isReasoning st \<Longrightarrow> \<not> isSer st \<Longrightarrow> \<not> startsWith r (js ''<think>'') \<Longrightarrow>
   \<not> startsWith r (js ''<ser>'') \<Longrightarrow>
   startsWith (js ''<think>'') r \<or> startsWith (js ''<ser>'') r \<Longrightarrow> scan st r = (st, [], r)"
  by (subst scan.simps) auto

lemma scan_char:
  "\<not> isReasoning st \<Longrightarrow> \<not> isSer st \<Longrightarrow> r \<noteq> [] \<Longrightarrow> \<not> startsWith r (js ''<think>'') \<Longrightarrow>
   \<not> startsWith r (js ''<ser>'') \<Longrightarrow> \<not> startsWith (js ''<think>'') r \<Longrightarrow>
   \<not> startsWith (js ''<ser>'') r \<Longrightarrow>
   scan st r = emit (charOutput st (hd r)) (scan (charState st (hd r)) (drop 1 r))"
  by (subst scan.simps) (simp add: charOutput_def charState_def Let_def)

lemma startsWith_append: "startsWith x t \<Longrightarrow> startsWith (x @ b) t"
  by (simp add: startsWith_def prefix_prefix)

lemma not_startsWith_append:
  "\<not> startsWith x t \<Longrightarrow> \<not> startsWith t x \<Longrightarrow> \<not> startsWith (x @ b) t"
  by (auto simp: startsWith_def prefix_append)

lemma not_startsWith_append2: "\<not> startsWith t x \<Longrightarrow> \<not> startsWith t (x @ b)"
  by (auto simp: startsWith_def dest: append_prefixD)

lemma drop_startsWith_append:
  "startsWith x t \<Longrightarrow> n \<le> length t \<Longrightarrow> drop n (x @ b) = drop n x @ b"
  by (auto simp: startsWith_def prefix_def)

lemma tags_distinct:
  "startsWith x (js ''<ser>'') \<Longrightarrow> \<not> startsWith x (js ''<think>'')"
  by (auto simp: startsWith_def prefix_def js_def)

lemma scan_append:
  "scan st x = (st1, o1, r1) \<Longrightarrow> scan st (x @ b) = emit o1 (scan st1 (r1 @ b))"
proof (induction x arbitrary: st st1 o1 r1 rule: length_induct)
  case (1 x)
  note IH = "1.IH"[rule_format] and eq = "1.prems"
  have step: "scan st (x @ b) = emit o1 (scan st1 (r1 @ b))"
    if "length y < length x" "scan st x = emit e (scan st' y)" "scan st (x @ b) = emit e (scan st' (y @ b))"
    for y st' e
  proof -
    obtain st2 o2 r2 where y: "scan st' y = (st2, o2, r2)" by (cases "scan st' y") auto
    from that(2) y eq have "st1 = st2" "o1 = e @ o2" "r1 = r2" by simp_all
    with IH[OF that(1) y] that(3) show ?thesis by simp
  qed
  have stop: "scan st (x @ b) = emit o1 (scan st1 (r1 @ b))" if "scan st x = (st, [], x)"
    using that eq by simp
  show ?case
  proof (cases "x = []")
    case True
    with eq show ?thesis by simp
  next
    case ne: False
    then have tl: "length (drop 1 x) < length x" "drop 1 (x @ b) = drop 1 x @ b" "x @ b \<noteq> []"
      by (cases x; simp)+
    show ?thesis
    proof (cases "isReasoning st")
      case r: True
      consider (close) "startsWith x (js ''</think>'')"
        | (pending) "\<not> startsWith x (js ''</think>'')" "startsWith (js ''</think>'') x"
        | (skip) "\<not> startsWith x (js ''</think>'')" "\<not> startsWith (js ''</think>'') x"
        by blast
      then show ?thesis
      proof cases
        case close
        have l: "length (drop 8 x) < length x" using ne by simp
        have "scan st (x @ b) = scan (st\<lparr>isReasoning := False, lastCharWasSpace := True\<rparr>) (drop 8 x @ b)"
          using scan_close_think[OF r startsWith_append[OF close], of b]
            drop_startsWith_append[OF close, of 8 b] by (simp add: js_def)
        with step[OF l, of "[]"] scan_close_think[OF r close] show ?thesis by simp
      next
        case pending
        then show ?thesis using stop scan_pending_think[OF r] by blast
      next
        case skip
        have "scan st (x @ b) = scan st (drop 1 x @ b)"
          using scan_skip_think[OF r tl(3) not_startsWith_append[OF skip] not_startsWith_append2[OF skip(2)]]
          unfolding tl(2) .
        with step[OF tl(1), of "[]"] scan_skip_think[OF r ne skip] show ?thesis by simp
      qed
    next
      case nr: False
      show ?thesis
      proof (cases "isSer st")
        case s: True
        consider (close) "startsWith x (js ''</ser>'')"
          | (pending) "\<not> startsWith x (js ''</ser>'')" "startsWith (js ''</ser>'') x"
          | (skip) "\<not> startsWith x (js ''</ser>'')" "\<not> startsWith (js ''</ser>'') x"
          by blast
        then show ?thesis
        proof cases
          case close
          have l: "length (drop 6 x) < length x" using ne by simp
          have "scan st (x @ b) = scan (st\<lparr>isSer := False, lastCharWasSpace := True\<rparr>) (drop 6 x @ b)"
            using scan_close_ser[OF nr s startsWith_append[OF close], of b]
              drop_startsWith_append[OF close, of 6 b] by (simp add: js_def)
          with step[OF l, of "[]"] scan_close_ser[OF nr s close] show ?thesis by simp
        next
          case pending
          then show ?thesis using stop scan_pending_ser[OF nr s] by blast
        next
          case skip
          have "scan st (x @ b) = scan st (drop 1 x @ b)"
            using scan_skip_ser[OF nr s tl(3) not_startsWith_append[OF skip] not_startsWith_append2[OF skip(2)]]
            unfolding tl(2) .
          with step[OF tl(1), of "[]"] scan_skip_ser[OF nr s ne skip] show ?thesis by simp
        qed
      next
        case ns: False
        consider (think) "startsWith x (js ''<think>'')"
          | (ser) "\<not> startsWith x (js ''<think>'')" "startsWith x (js ''<ser>'')"
          | (pending) "\<not> startsWith x (js ''<think>'')" "\<not> startsWith x (js ''<ser>'')"
              "startsWith (js ''<think>'') x \<or> startsWith (js ''<ser>'') x"
          | (char) "\<not> startsWith x (js ''<think>'')" "\<not> startsWith x (js ''<ser>'')"
              "\<not> startsWith (js ''<think>'') x" "\<not> startsWith (js ''<ser>'') x"
          by blast
        then show ?thesis
        proof cases
          case think
          have l: "length (drop 7 x) < length x" using ne by simp
          have "scan st (x @ b) = scan (st\<lparr>isReasoning := True\<rparr>) (drop 7 x @ b)"
            using scan_open_think[OF nr ns startsWith_append[OF think], of b]
              drop_startsWith_append[OF think, of 7 b] by (simp add: js_def)
          with step[OF l, of "[]"] scan_open_think[OF nr ns think] show ?thesis by simp
        next
          case ser
          have l: "length (drop 5 x) < length x" using ne by simp
          have "scan st (x @ b) = scan (st\<lparr>isSer := True\<rparr>) (drop 5 x @ b)"
            using scan_open_ser[OF nr ns tags_distinct[OF startsWith_append[OF ser(2)]]
                startsWith_append[OF ser(2)], of b]
              drop_startsWith_append[OF ser(2), of 5 b] by (simp add: js_def)
          with step[OF l, of "[]"] scan_open_ser[OF nr ns ser] show ?thesis by simp
        next
          case pending
          then show ?thesis using stop scan_pending_open[OF nr ns] by blast
        next
          case char
          have hd: "hd (x @ b) = hd x" using ne by simp
          have "scan st (x @ b) = emit (charOutput st (hd x)) (scan (charState st (hd x)) (drop 1 x @ b))"
            using scan_char[OF nr ns tl(3) not_startsWith_append[OF char(1,3)]
                not_startsWith_append[OF char(2,4)] not_startsWith_append2[OF char(3)]
                not_startsWith_append2[OF char(4)]]
            unfolding tl(2) hd .
          with step[OF tl(1)] scan_char[OF nr ns ne char] show ?thesis by simp
        qed
      qed
    qed
  qed
qed

section \<open>The filter only sees the concatenated text\<close>

lemma feed_append:
  "feed s (a @ b) = (case feed s a of (s1, o1) \<Rightarrow> (case feed s1 b of (s2, o2) \<Rightarrow> (s2, o1 @ o2)))"
proof -
  obtain st buffer where s: "s = (st, buffer)" by (cases s)
  obtain st1 o1 r1 where a: "scan st (buffer @ a) = (st1, o1, r1)"
    by (cases "scan st (buffer @ a)") auto
  obtain st2 o2 r2 where b: "scan st1 (r1 @ b) = (st2, o2, r2)"
    by (cases "scan st1 (r1 @ b)") auto
  from scan_append[OF a, of b] b have "scan st (buffer @ a @ b) = (st2, o1 @ o2, r2)" by simp
  with s a b show ?thesis by (simp add: feed_def)
qed

lemma scan_shape:
  "x = [] \<or> scan st x = (st, [], x) \<or>
   (\<exists>e st' y. length y < length x \<and> scan st x = emit e (scan st' y))"
proof (cases "x = []")
  case ne: False
  have l: "length (drop (Suc n) x) < length x" for n using ne by simp
  have step: ?thesis if "scan st x = emit e (scan st' (drop (Suc n) x))" for e st' n
    using that l by blast
  show ?thesis
  proof (cases "isReasoning st")
    case r: True
    show ?thesis
      using scan_close_think[OF r, of x] scan_pending_think[OF r, of x] scan_skip_think[OF r ne]
        step[where n=7 and e="[]"] step[where n=0 and e="[]"]
      by (cases "startsWith x (js ''</think>'')"; cases "startsWith (js ''</think>'') x") simp_all
  next
    case nr: False
    show ?thesis
    proof (cases "isSer st")
      case s: True
      show ?thesis
        using scan_close_ser[OF nr s, of x] scan_pending_ser[OF nr s, of x] scan_skip_ser[OF nr s ne]
          step[where n=5 and e="[]"] step[where n=0 and e="[]"]
        by (cases "startsWith x (js ''</ser>'')"; cases "startsWith (js ''</ser>'') x") simp_all
    next
      case ns: False
      show ?thesis
      proof (cases "startsWith x (js ''<think>'')")
        case True
        then show ?thesis using scan_open_think[OF nr ns, of x] step[where n=6 and e="[]"] by simp
      next
        case nt: False
        show ?thesis
        proof (cases "startsWith x (js ''<ser>'')")
          case True
          then show ?thesis using scan_open_ser[OF nr ns nt] step[where n=4 and e="[]"] by simp
        next
          case nse: False
          show ?thesis
          proof (cases "startsWith (js ''<think>'') x \<or> startsWith (js ''<ser>'') x")
            case True
            then show ?thesis using scan_pending_open[OF nr ns nt nse] by simp
          next
            case False
            then show ?thesis using scan_char[OF nr ns ne nt nse] step[where n=0] by simp
          qed
        qed
      qed
    qed
  qed
qed simp

lemma scan_leftover:
  "scan st x = (st1, o1, r1) \<Longrightarrow> scan st1 r1 = (st1, [], r1)"
proof (induction x arbitrary: st st1 o1 r1 rule: length_induct)
  case (1 x)
  note IH = "1.IH"[rule_format] and eq = "1.prems"
  consider "x = []" | "scan st x = (st, [], x)"
    | e st' y where "length y < length x" "scan st x = emit e (scan st' y)"
    using scan_shape[of x st] by blast
  then show ?case
  proof cases
    case 1
    with eq show ?thesis by simp
  next
    case 2
    with eq show ?thesis by simp
  next
    case 3
    obtain st2 o2 r2 where y: "scan st' y = (st2, o2, r2)" by (cases "scan st' y") auto
    with 3(2) eq have "st1 = st2" "r1 = r2" by simp_all
    with IH[OF 3(1) y] show ?thesis by simp
  qed
qed

lemma stable_feed: "feed s text = (s', out) \<Longrightarrow> stable s'"
  by (auto simp: feed_def stable_def split: prod.splits dest: scan_leftover)

lemma feed_Nil: "stable s \<Longrightarrow> feed s [] = (s, [])"
  by (auto simp: feed_def stable_def split: prod.splits)

lemma stable_initial: "stable (initialState, [])"
  by (simp add: stable_def)

lemma filterChoice_feed:
  assumes "stable s" and "filterChoice s choice = (s', pushed, y)"
  shows "feed s (choiceText choice) = (s', concat (map choiceText pushed))"
proof (cases "\<exists>d. delta choice = Some d \<and> truthy (d_content d)")
  case True
  then obtain d c where d: "delta choice = Some d" "d_content d = Some c" "c \<noteq> []"
    by (auto simp: truthy_def split: option.splits)
  obtain st buffer where s: "s = (st, buffer)" by (cases s)
  obtain st1 o1 r1 where sc: "scan st (buffer @ c) = (st1, o1, r1)"
    by (cases "scan st (buffer @ c)") auto
  from assms(2) d s sc show ?thesis
    by (auto simp: filterChoice_def feed_def choiceText_def rebuilt_def truthy_def split: if_splits)
next
  case False
  then have "choiceText choice = []" "filterChoice s choice = (s, [choice], True)"
    by (auto simp: choiceText_def filterChoice_def truthy_def split: option.splits prod.splits)
  then have ct: "choiceText choice = []" and fc: "filterChoice s choice = (s, [choice], True)"
    by simp_all
  from assms(2) fc have "s' = s" "pushed = [choice]" by simp_all
  with ct feed_Nil[OF assms(1)] show ?thesis by simp
qed

lemma filterChoice_flag: "filterChoice s choice = (s', pushed, y) \<Longrightarrow> y \<longleftrightarrow> pushed \<noteq> []"
  by (auto simp: filterChoice_def split: prod.splits option.splits if_splits)

lemma filterChoices_flag: "filterChoices s cs = (s', newChoices, y) \<Longrightarrow> y \<longleftrightarrow> newChoices \<noteq> []"
proof (induction cs arbitrary: s s' newChoices y)
  case (Cons c cs)
  obtain s1 pushed y1 where c: "filterChoice s c = (s1, pushed, y1)"
    by (cases "filterChoice s c") auto
  obtain s2 new2 y2 where cs: "filterChoices s1 cs = (s2, new2, y2)"
    by (cases "filterChoices s1 cs") auto
  from Cons.prems c cs filterChoice_flag[OF c] Cons.IH[OF cs] show ?case by auto
qed simp


lemma filterChoices_feed:
  "stable s \<Longrightarrow> filterChoices s cs = (s', newChoices, y) \<Longrightarrow>
   feed s (concat (map choiceText cs)) = (s', concat (map choiceText newChoices))"
proof (induction cs arbitrary: s s' newChoices y)
  case Nil
  then show ?case by (simp add: feed_Nil)
next
  case (Cons c cs)
  obtain s1 pushed y1 where c: "filterChoice s c = (s1, pushed, y1)"
    by (cases "filterChoice s c") auto
  obtain s2 new2 y2 where cs: "filterChoices s1 cs = (s2, new2, y2)"
    by (cases "filterChoices s1 cs") auto
  note f1 = filterChoice_feed[OF Cons.prems(1) c]
  note f2 = Cons.IH[OF stable_feed[OF f1] cs]
  from Cons.prems(2) c cs have "s' = s2" "newChoices = pushed @ new2" by simp_all
  with f1 f2 show ?case by (simp add: feed_append)
qed

lemma filterChunks_feed:
  "stable s \<Longrightarrow> contentText (filterChunks s chunks) = snd (feed s (contentText chunks))"
proof (induction chunks arbitrary: s)
  case Nil
  then show ?case by (simp add: contentText_def feed_Nil)
next
  case (Cons chunk chunks)
  obtain s1 new y where c: "filterChoices s (k_choices chunk) = (s1, new, y)"
    by (cases "filterChoices s (k_choices chunk)") auto
  note f1 = filterChoices_feed[OF Cons.prems c]
  have e: "new = []" if "\<not> y" using filterChoices_flag[OF c] that by simp
  have "contentText (filterChunks s (chunk # chunks)) =
        concat (map choiceText new) @ contentText (filterChunks s1 chunks)"
    using c e by (auto simp: contentText_def)
  also have "contentText (filterChunks s1 chunks) = snd (feed s1 (contentText chunks))"
    by (rule Cons.IH[OF stable_feed[OF f1]])
  finally show ?case
    using f1 by (simp add: contentText_def feed_append split: prod.splits)
qed

lemma contentText_textChunks: "contentText (map textChunk fragments) = concat fragments"
  by (induction fragments) (simp_all add: contentText_def textChunk_def chunkOf_def textChoice_def choiceText_def)

lemma generator_text:
  "contentText (createFilteredStreamGenerator chunks) =
   snd (feed (initialState, []) (contentText chunks))"
  unfolding createFilteredStreamGenerator_def by (rule filterChunks_feed[OF stable_initial])

lemmas eval_filter =
  contentText_def createFilteredStreamGenerator_def textChunk_def chunkOf_def textChoice_def
  filterChoice_def truthy_def scan.simps js_def startsWith_def initialState_def is_space_def
  choiceText_def rebuilt_def

section \<open>Claims about the streaming filter\<close>

text \<open>
  C1. For every text and every way of cutting it into fragments, the streaming filter fed
  the fragments one by one emits, in total, the same content text as when it is fed the
  whole text as a single fragment. The cuts may fall anywhere, also inside a tag.
\<close>

theorem rechunking_invariant:
  "contentText (createFilteredStreamGenerator (map textChunk fragments)) =
   contentText (createFilteredStreamGenerator [textChunk (concat fragments)])"
proof -
  have "contentText [textChunk (concat fragments)] = concat fragments"
    using contentText_textChunks[of "[concat fragments]"] by simp
  then show ?thesis
    by (simp add: generator_text contentText_textChunks)
qed

text \<open>
  C7, as the code has it. For the single fragment \<^verbatim>\<open>"text <thi"\<close> followed by the end
  of the stream, the text emitted is \<^verbatim>\<open>"text "\<close>: the partial tag \<^verbatim>\<open><thi\<close> is what
  the scan leaves in the buffer and is never emitted, and the space in front of it has
  already been emitted, since the streaming filter does not trim the end of its output.
\<close>

theorem dangling_tag_discarded:
  "contentText (createFilteredStreamGenerator [textChunk (js ''text <thi'')]) = js ''text '' \<and>
   snd (snd (scan initialState (js ''text <thi''))) = js ''<thi''"
  by (simp add: eval_filter)

text \<open>C7 as stated (the emitted text is exactly \<^verbatim>\<open>"text"\<close>) fails by that space.\<close>

theorem dangling_tag_not_text:
  "contentText (createFilteredStreamGenerator [textChunk (js ''text <thi'')]) \<noteq> js ''text''"
  by (simp add: eval_filter)

lemma filterChoice_reindex:
  "filterChoice s (choice\<lparr>index := f (index choice)\<rparr>) =
     (case filterChoice s choice of (s', pushed, y) \<Rightarrow>
        (s', map (\<lambda>c. c\<lparr>index := f (index c)\<rparr>) pushed, y))"
  by (auto simp: filterChoice_def rebuilt_def split: prod.splits option.splits)

lemma filterChoices_reindex:
  "filterChoices s (map (\<lambda>c. c\<lparr>index := f (index c)\<rparr>) cs) =
     (case filterChoices s cs of (s', new, y) \<Rightarrow>
        (s', map (\<lambda>c. c\<lparr>index := f (index c)\<rparr>) new, y))"
  by (induction cs arbitrary: s) (auto simp: filterChoice_reindex split: prod.splits)

lemma filterChunks_reindex:
  "filterChunks s (map (reindex f) chunks) = map (reindex f) (filterChunks s chunks)"
  by (induction chunks arbitrary: s)
     (auto simp: reindex_def filterChoices_reindex split: prod.splits)

text \<open>
  C4, as the code has it. The generator keeps one state for the whole stream and never
  looks at the index of a choice: renumbering the choices of the input renumbers the
  output and changes nothing else, and the text emitted is the filter applied to all the
  content fragments of the stream in arrival order, whatever index each carries.
\<close>

theorem one_state_for_all_indices:
  "createFilteredStreamGenerator (map (reindex f) chunks) =
     map (reindex f) (createFilteredStreamGenerator chunks) \<and>
   contentText (createFilteredStreamGenerator chunks) =
     contentText (createFilteredStreamGenerator [textChunk (contentText chunks)])"
proof
  show "createFilteredStreamGenerator (map (reindex f) chunks) =
     map (reindex f) (createFilteredStreamGenerator chunks)"
    unfolding createFilteredStreamGenerator_def by (rule filterChunks_reindex)
  have "contentText [textChunk (contentText chunks)] = contentText chunks"
    using contentText_textChunks[of "[contentText chunks]"] by simp
  then show "contentText (createFilteredStreamGenerator chunks) =
     contentText (createFilteredStreamGenerator [textChunk (contentText chunks)])"
    by (simp only: generator_text)
qed

text \<open>
  C4 as stated fails. When index 0 opens a reasoning block and index 1 then sends
  \<^verbatim>\<open>hello\<close>, nothing is emitted for index 1, while the filter applied to the fragments of
  index 1 alone emits \<^verbatim>\<open>hello\<close>.
\<close>

theorem state_shared_between_indices:
  "contentFor 1 (createFilteredStreamGenerator interleaved) = [] \<and>
   contentText (createFilteredStreamGenerator (onlyIndex 1 interleaved)) = js ''hello''"
  by (simp add: interleaved_def contentFor_def onlyIndex_def eval_filter)

lemma filterChunks_subseq:
  "subseq (map (\<lambda>k. k\<lparr>k_choices := []\<rparr>) (filterChunks s chunks))
          (map (\<lambda>k. k\<lparr>k_choices := []\<rparr>) chunks)"
proof (induction chunks arbitrary: s)
  case (Cons chunk chunks)
  obtain s' new y where c: "filterChoices s (k_choices chunk) = (s', new, y)"
    by (cases "filterChoices s (k_choices chunk)") auto
  show ?case using Cons[of s'] c by (cases y) auto
qed simp

lemma emitted_feed: "emitted t = snd (feed (initialState, []) t)"
  by (simp add: emitted_def feed_def split: prod.splits)

lemma filteredText_feed:
  "feed (initialState, []) earlier = (s, o1) \<Longrightarrow> snd (feed s fragment) = filteredText earlier fragment"
  by (simp add: filteredText_def emitted_feed feed_append split: prod.splits)

lemma feed_state_append:
  "feed (initialState, []) earlier = (s, o1) \<Longrightarrow>
   fst (feed (initialState, []) (earlier @ fragment)) = fst (feed s fragment)"
  by (simp add: feed_append split: prod.splits)

lemma filterChoice_policy:
  assumes e: "feed (initialState, []) earlier = (s, o1)"
  shows "filterChoice s choice =
     (fst (feed (initialState, []) (earlier @ choiceText choice)), keptChoice earlier choice,
      keptChoice earlier choice \<noteq> [])"
proof (cases "textBearing choice")
  case True
  then obtain d c where d: "delta choice = Some d" "d_content d = Some c" "c \<noteq> []"
    by (auto simp: textBearing_def truthy_def split: option.splits)
  obtain st buffer where s: "s = (st, buffer)" by (cases s)
  obtain st1 out r1 where sc: "scan st (buffer @ c) = (st1, out, r1)"
    by (cases "scan st (buffer @ c)") auto
  from s sc have f: "feed s c = ((st1, r1), out)" by (simp add: feed_def)
  with filteredText_feed[OF e, of c] have o: "filteredText earlier c = out" by simp
  from d have ct: "choiceText choice = c" by (simp add: choiceText_def)
  from feed_state_append[OF e, of c] f ct
  have st: "fst (feed (initialState, []) (earlier @ choiceText choice)) = (st1, r1)" by simp
  from True d o ct have k: "keptChoice earlier choice =
      (if out \<noteq> [] then [rebuilt choice d (Some out)]
        else if truthy (finish_reason choice) then [rebuilt choice d None] else [])"
    by (simp add: keptChoice_def rebuilt_def withContent_def)
  from d s sc have "filterChoice s choice =
      ((st1, r1),
       (if out \<noteq> [] then [rebuilt choice d (Some out)]
        else if truthy (finish_reason choice) then [rebuilt choice d None] else []),
       out \<noteq> [] \<or> truthy (finish_reason choice))"
    by (simp add: filterChoice_def truthy_def)
  with st k show ?thesis by auto
next
  case False
  then have "choiceText choice = []" "filterChoice s choice = (s, [choice], True)"
    by (auto simp: textBearing_def choiceText_def filterChoice_def truthy_def
        split: option.splits prod.splits)
  with False e show ?thesis by (simp add: keptChoice_def)
qed

lemma filterChoices_policy:
  "feed (initialState, []) earlier = (s, o1) \<Longrightarrow>
   filterChoices s cs =
     (fst (feed (initialState, []) (earlier @ concat (map choiceText cs))), keptChoices earlier cs,
      keptChoices earlier cs \<noteq> [])"
proof (induction cs arbitrary: earlier s o1)
  case Nil
  then show ?case by simp
next
  case (Cons c cs)
  obtain s1 o2 where n: "feed (initialState, []) (earlier @ choiceText c) = (s1, o2)"
    by (cases "feed (initialState, []) (earlier @ choiceText c)") auto
  from filterChoice_policy[OF Cons.prems, of c] n Cons.IH[OF n] show ?case by simp
qed

lemma filterChunks_policy:
  "feed (initialState, []) earlier = (s, o1) \<Longrightarrow> filterChunks s chunks = emittedChunks earlier chunks"
proof (induction chunks arbitrary: earlier s o1)
  case Nil
  show ?case by simp
next
  case (Cons k ks)
  let ?e = "earlier @ concat (map choiceText (k_choices k))"
  obtain s1 o2 where n: "feed (initialState, []) ?e = (s1, o2)"
    by (cases "feed (initialState, []) ?e") auto
  from filterChoices_policy[OF Cons.prems, of "k_choices k"] n Cons.IH[OF n] show ?case by simp
qed

lemmas eval_policy =
  emitted_def filteredText_def keptChoice_def withContent_def textBearing_def choiceText_def roleChoice_def
  finishChoice_def textChunk_def textChoice_def chunkOf_def truthy_def scan.simps js_def
  startsWith_def initialState_def is_space_def

text \<open>
  C6, as the code has it. The generator emits exactly the chunks of \<open>emittedChunks\<close>: an
  input chunk is emitted if and only if at least one of its choices is kept, with the kept
  choices in order and its other fields unchanged; a choice that is not text-bearing is
  kept unchanged; a text-bearing choice is kept if and only if its filtered text is not
  empty or its finish reason is truthy, rebuilt with the filtered text, or with no content
  when that is empty. So the chunks emitted are input chunks in arrival order: stripped of
  their choices they form a subsequence of the input.
\<close>

theorem emission_policy:
  "createFilteredStreamGenerator chunks = emittedChunks [] chunks \<and>
   subseq (map (\<lambda>k. k\<lparr>k_choices := []\<rparr>) (createFilteredStreamGenerator chunks))
          (map (\<lambda>k. k\<lparr>k_choices := []\<rparr>) chunks)"
proof
  have "feed (initialState, []) [] = ((initialState, []), [])" by (simp add: feed_def)
  then show "createFilteredStreamGenerator chunks = emittedChunks [] chunks"
    unfolding createFilteredStreamGenerator_def by (rule filterChunks_policy)
  show "subseq (map (\<lambda>k. k\<lparr>k_choices := []\<rparr>) (createFilteredStreamGenerator chunks))
          (map (\<lambda>k. k\<lparr>k_choices := []\<rparr>) chunks)"
    unfolding createFilteredStreamGenerator_def by (rule filterChunks_subseq)
qed

theorem emission_policy_witness:
  "createFilteredStreamGenerator
     [chunkOf [roleChoice 0], textChunk (js ''<think>plan''),
      chunkOf [finishChoice (js ''</think>'')], chunkOf [], textChunk (js ''Hi'')] =
   [chunkOf [roleChoice 0],
    chunkOf [(finishChoice (js ''</think>''))\<lparr>delta := Some \<lparr>d_content = None, d_function_call = None,
       d_role = None, d_tool_calls = None\<rparr>\<rparr>],
    textChunk (js ''Hi'')]"
proof -
  let ?X = "[chunkOf [roleChoice 0], textChunk (js ''<think>plan''),
      chunkOf [finishChoice (js ''</think>'')], chunkOf [], textChunk (js ''Hi'')]"
  have 1: "keptChoice [] (roleChoice 0) = [roleChoice 0]"
    by (simp add: keptChoice_def textBearing_def roleChoice_def truthy_def)
  have 2: "keptChoice [] (textChoice 0 (js ''<think>plan'')) = []"
    by (simp add: eval_policy)
  have 3: "keptChoice (js ''<think>plan'') (finishChoice (js ''</think>'')) =
      [(finishChoice (js ''</think>''))\<lparr>delta := Some \<lparr>d_content = None, d_function_call = None,
       d_role = None, d_tool_calls = None\<rparr>\<rparr>]"
    by (simp add: eval_policy)
  have 4: "keptChoice (js ''<think>plan</think>'') (textChoice 0 (js ''Hi'')) = [textChoice 0 (js ''Hi'')]"
    by (simp add: eval_policy)
  have t: "choiceText (roleChoice 0) = []" "choiceText (textChoice 0 (js ''<think>plan'')) = js ''<think>plan''"
    "choiceText (finishChoice (js ''</think>'')) = js ''</think>''"
    "js ''<think>plan'' @ js ''</think>'' = js ''<think>plan</think>''"
    by (simp_all add: choiceText_def roleChoice_def textChoice_def finishChoice_def js_def)
  have e: "emittedChunks [] ?X = [chunkOf [roleChoice 0],
    chunkOf [(finishChoice (js ''</think>''))\<lparr>delta := Some \<lparr>d_content = None, d_function_call = None,
       d_role = None, d_tool_calls = None\<rparr>\<rparr>],
    textChunk (js ''Hi'')]"
    by (simp add: 1 2 3 4 t textChunk_def chunkOf_def)
  from emission_policy[of ?X] have "createFilteredStreamGenerator ?X = emittedChunks [] ?X"
    by (rule conjunct1)
  with e show ?thesis by (simp only:)
qed

text \<open>
  C6 as stated fails for a chunk that has no choices, so no \<^verbatim>\<open>delta.content\<close>: it is
  not emitted. It also fails for a chunk of two choices whose only text filters to nothing
  and that has no finish reason: the chunk is emitted, with the other choice alone.
\<close>

theorem empty_chunk_dropped:
  "createFilteredStreamGenerator [chunkOf []] \<noteq> [chunkOf []] \<and>
   createFilteredStreamGenerator [chunkOf [textChoice 0 (js ''<think>''), roleChoice 1]] =
     [chunkOf [roleChoice 1]]"
  by (simp add: eval_filter roleChoice_def)

section \<open>Claims about the non-streaming filter\<close>

text \<open>
  C10. The filter of a non-streamed completion changes nothing but the content of the
  messages: the fields of the completion other than its choices are unchanged, the
  choices keep their number and order, and in every choice the index, the finish reason,
  the logprobs, the delta and the role, tool calls and function call of the message are
  unchanged; a choice with no message, or whose message content is absent or empty, is
  returned as it is.
\<close>

theorem filterCompletion_frame:
  "c_id (filterCompletion c) = c_id c \<and> c_created (filterCompletion c) = c_created c \<and>
   c_model (filterCompletion c) = c_model c \<and> c_object (filterCompletion c) = c_object c \<and>
   c_system_fingerprint (filterCompletion c) = c_system_fingerprint c \<and>
   c_usage (filterCompletion c) = c_usage c \<and>
   length (c_choices (filterCompletion c)) = length (c_choices c) \<and>
   (\<forall>i < length (c_choices c).
      index (c_choices (filterCompletion c) ! i) = index (c_choices c ! i) \<and>
      finish_reason (c_choices (filterCompletion c) ! i) = finish_reason (c_choices c ! i) \<and>
      logprobs (c_choices (filterCompletion c) ! i) = logprobs (c_choices c ! i) \<and>
      delta (c_choices (filterCompletion c) ! i) = delta (c_choices c ! i) \<and>
      map_option m_role (message (c_choices (filterCompletion c) ! i)) =
        map_option m_role (message (c_choices c ! i)) \<and>
      map_option m_tool_calls (message (c_choices (filterCompletion c) ! i)) =
        map_option m_tool_calls (message (c_choices c ! i)) \<and>
      map_option m_function_call (message (c_choices (filterCompletion c) ! i)) =
        map_option m_function_call (message (c_choices c ! i)) \<and>
      ((case message (c_choices c ! i) of None \<Rightarrow> True | Some m \<Rightarrow> \<not> truthy (m_content m)) \<longrightarrow>
         c_choices (filterCompletion c) ! i = c_choices c ! i))"
  by (auto simp: filterCompletion_def split: option.splits)

lemmas eval_regex =
  filterThinkSerBlocks_def removeThink.simps removeSer.simps rejoinHyphens.simps
  collapseNewlines.simps collapseSpaces.simps trim_def matchBlock_def matchHyphen_def
  is_word_def is_space_def startsWith_def js_def truthy_def

lemma sample_content:
  "map (\<lambda>ch. map_option m_content (message ch)) (c_choices (filterCompletion sampleCompletion)) =
     [Some (Some (js ''Hi there'')), Some None]"
  by (simp add: filterCompletion_def sampleCompletion_def eval_regex)

theorem filterCompletion_frame_witness:
  "1 < length (c_choices sampleCompletion) \<and>
   index (c_choices (filterCompletion sampleCompletion) ! 0) = 0 \<and>
   finish_reason (c_choices (filterCompletion sampleCompletion) ! 0) = Some (js ''stop'') \<and>
   map_option m_content (message (c_choices (filterCompletion sampleCompletion) ! 0)) =
     Some (Some (js ''Hi there'')) \<and>
   c_choices (filterCompletion sampleCompletion) ! 1 = c_choices sampleCompletion ! 1"
proof -
  have l: "1 < length (c_choices sampleCompletion)" "0 < length (c_choices sampleCompletion)"
    by (simp_all add: sampleCompletion_def)
  have n: "case message (c_choices sampleCompletion ! 1) of None \<Rightarrow> True
           | Some m \<Rightarrow> \<not> truthy (m_content m)"
    by (simp add: sampleCompletion_def truthy_def)
  have i: "index (c_choices sampleCompletion ! 0) = 0"
    "finish_reason (c_choices sampleCompletion ! 0) = Some (js ''stop'')"
    by (simp_all add: sampleCompletion_def)
  have c: "map_option m_content (message (c_choices (filterCompletion sampleCompletion) ! 0)) =
     Some (Some (js ''Hi there''))"
    by (simp add: filterCompletion_def sampleCompletion_def eval_regex)
  from filterCompletion_frame[of sampleCompletion] l n i c show ?thesis by simp
qed

section \<open>The two filters on well marked, well spaced text\<close>

lemma space_values [simp]: "is_space 32" "is_space 10" "\<not> is_space 60" "\<not> is_space 45"
  by (simp_all add: is_space_def)

subsection \<open>Blocks: the scan loop and the two removal passes\<close>

lemma tag_lengths [simp]:
  "length (js ''<think>'') = 7" "length (js ''</think>'') = 8"
  "length (js ''<ser>'') = 5" "length (js ''</ser>'') = 6"
  by (simp_all add: js_def)














lemma removeThink_Nil [simp]: "removeThink [] = []"
  by (simp add: removeThink.simps)

lemma removeSer_Nil [simp]: "removeSer [] = []"
  by (simp add: removeSer.simps)










subsection \<open>Blocks only change the flag of the last space\<close>


subsection \<open>The collapsing passes read the text once\<close>




lemma collapseNewlines_Nil [simp]: "collapseNewlines [] = []"
  by (simp add: collapseNewlines.simps)



lemma collapseSpaces_Nil [simp]: "collapseSpaces [] = []"
  by (simp add: collapseSpaces.simps)











subsection \<open>The streaming filter collapses white space in the same way\<close>


subsection \<open>Rejoining hyphens commutes with collapsing\<close>


lemma nsA_char: "\<not> is_space c \<Longrightarrow> nsA k b (c # r) = c # nsA 0 False r"
  by auto





lemma rejoinHyphens_Nil [simp]: "rejoinHyphens [] = []"
  by (simp add: rejoinHyphens.simps)








subsection \<open>The ends of the text\<close>





















section \<open>Claims about the error classifier\<close>

lemma firstQuoted_found:
  "39 \<notin> set pre \<Longrightarrow> 39 \<notin> set m \<Longrightarrow> firstQuoted (pre @ [39] @ m @ [39] @ post) = Some m"
proof -
  assume p: "39 \<notin> set pre" and m: "39 \<notin> set m"
  from p have "dropWhile (\<lambda>c. c \<noteq> 39) (pre @ [39] @ m @ [39] @ post) = [39] @ m @ [39] @ post"
    by (induction pre) auto
  moreover from m have "takeWhile (\<lambda>c. c \<noteq> 39) (m @ [39] @ post) = m"
    by (induction m) auto
  ultimately show ?thesis by (simp add: firstQuoted_def)
qed

lemma firstQuoted_none:
  "length (filter (\<lambda>c. c = 39) s) < 2 \<Longrightarrow> firstQuoted s = None"
proof -
  assume l: "length (filter (\<lambda>c. c = 39) s) < 2"
  have s: "s = takeWhile (\<lambda>c. c \<noteq> 39) s @ dropWhile (\<lambda>c. c \<noteq> 39) s" by simp
  show ?thesis
  proof (cases "dropWhile (\<lambda>c. c \<noteq> 39) s")
    case Nil
    then show ?thesis unfolding firstQuoted_def by (simp only: list.case)
  next
    case (Cons q t)
    then have q: "q = 39" using hd_dropWhile[of "\<lambda>c. c \<noteq> 39" s] by auto
    have "length (filter (\<lambda>c. c = 39) s) =
          length (filter (\<lambda>c. c = 39) (takeWhile (\<lambda>c. c \<noteq> 39) s)) +
          length (filter (\<lambda>c. c = 39) (q # t))"
      by (subst s, simp only: filter_append length_append Cons)
    with l q have "length (filter (\<lambda>c. c = 39) t) = 0" by simp
    then have "39 \<notin> set t" by (auto simp: filter_empty_conv)
    with Cons show ?thesis unfolding firstQuoted_def by (simp only: list.case if_False)
  qed
qed

text \<open>
  C8. A response with status 400 whose error message mentions a model (contains
  \<^verbatim>\<open>model\<close>, whatever the case of the letters) is classified as InvalidModelError,
  with parameter \<^verbatim>\<open>model\<close>. The model identifier it carries, inside its own message,
  is the text between the first single quote of the response's message and the next one;
  when that message has fewer than two single quotes the identifier is
  \<^verbatim>\<open>Unknown model\<close>, and the classification is the same.
\<close>

theorem invalid_model_classification:
  "r_status response = 400 \<Longrightarrow> errorEnvelope response = (msg, t, c) \<Longrightarrow>
   jsIncludes (toLowerCase msg) (js ''model'') \<Longrightarrow>
   (\<exists>model.
      handleErrorResponse response =
        new_InvalidModelError model (Some 400) (Some (extractHeaders response)) \<and>
      e_name (handleErrorResponse response) = js ''InvalidModelError'' \<and>
      e_param (handleErrorResponse response) = Some (js ''model'') \<and>
      e_message (handleErrorResponse response) =
        js ''Model '' @ [39] @ model @ [39] @
        js '' not found. Available models can be found at '' @
        js ''https://api.helpingai.co/v1/models'' \<and>
      (\<forall>pre m post. msg = pre @ [39] @ m @ [39] @ post \<and> 39 \<notin> set pre \<and> 39 \<notin> set m
         \<longrightarrow> model = m) \<and>
      (length (filter (\<lambda>c. c = 39) msg) < 2 \<longrightarrow> model = js ''Unknown model''))"
proof -
  assume st: "r_status response = 400" and env: "errorEnvelope response = (msg, t, c)"
    and inc: "jsIncludes (toLowerCase msg) (js ''model'')"
  let ?model = "case firstQuoted msg of Some m \<Rightarrow> m | None \<Rightarrow> js ''Unknown model''"
  have h: "handleErrorResponse response =
        new_InvalidModelError ?model (Some 400) (Some (extractHeaders response))"
    using st env inc by (simp add: handleErrorResponse_def)
  have n: "e_name (new_InvalidModelError ?model (Some 400) (Some (extractHeaders response))) =
        js ''InvalidModelError''"
    "e_param (new_InvalidModelError ?model (Some 400) (Some (extractHeaders response))) =
        Some (js ''model'')"
    "e_message (new_InvalidModelError ?model (Some 400) (Some (extractHeaders response))) =
        js ''Model '' @ [39] @ ?model @ [39] @
        js '' not found. Available models can be found at '' @
        js ''https://api.helpingai.co/v1/models''"
    by (simp_all add: new_InvalidModelError_def new_InvalidRequestError_def new_HAIError_def)
  have q: "\<forall>pre m post. msg = pre @ [39] @ m @ [39] @ post \<and> 39 \<notin> set pre \<and> 39 \<notin> set m
         \<longrightarrow> ?model = m"
  proof (intro allI impI)
    fix pre m post
    assume "msg = pre @ [39] @ m @ [39] @ post \<and> 39 \<notin> set pre \<and> 39 \<notin> set m"
    then show "?model = m" using firstQuoted_found[of pre m post] by simp
  qed
  have u: "length (filter (\<lambda>c. c = 39) msg) < 2 \<longrightarrow> ?model = js ''Unknown model''"
    using firstQuoted_none[of msg] by simp
  show ?thesis
    unfolding h by (rule exI[of _ ?model]) (intro conjI refl n q u)
qed

theorem invalid_model_classification_witness:
  "handleErrorResponse modelNotFound = new_InvalidModelError (js ''gpt-x'') (Some 400) (Some Map.empty)
   \<and> e_name (handleErrorResponse modelNotFound) = js ''InvalidModelError''
   \<and> e_message (handleErrorResponse modelNotFound) =
       js ''Model '' @ [39] @ js ''gpt-x'' @ [39] @
       js '' not found. Available models can be found at '' @
       js ''https://api.helpingai.co/v1/models''"
proof -
  let ?msg = "js ''Model '' @ [39] @ js ''gpt-x'' @ [39] @ js '' not found''"
  have st: "r_status modelNotFound = 400" by (simp add: modelNotFound_def)
  have env: "errorEnvelope modelNotFound = (?msg, None, None)"
    by (simp add: modelNotFound_def errorEnvelope_def orElse_def truthy_def js_def)
  have inc: "jsIncludes (toLowerCase ?msg) (js ''model'')"
    by (simp add: toLowerCase_def js_def startsWith_def)
  have hd: "extractHeaders modelNotFound = Map.empty"
    by (simp add: extractHeaders_def modelNotFound_def)
  from invalid_model_classification[OF st env inc] obtain model where
    h: "handleErrorResponse modelNotFound =
        new_InvalidModelError model (Some 400) (Some (extractHeaders modelNotFound))"
    and n: "e_name (handleErrorResponse modelNotFound) = js ''InvalidModelError''"
    and e: "e_message (handleErrorResponse modelNotFound) =
        js ''Model '' @ [39] @ model @ [39] @
        js '' not found. Available models can be found at '' @
        js ''https://api.helpingai.co/v1/models''"
    and q: "\<forall>pre m post. ?msg = pre @ [39] @ m @ [39] @ post \<and> 39 \<notin> set pre \<and> 39 \<notin> set m
         \<longrightarrow> model = m"
    by blast
  have "model = js ''gpt-x''"
    using q[rule_format, of "js ''Model ''" "js ''gpt-x''" "js '' not found''"] by (simp add: js_def)
  with h n e hd show ?thesis by simp
qed

text \<open>
  The rounding of \<^verbatim>\<open>parseInt\<close>: above \<open>2 ^ 53\<close> the digits are not read back exactly,
  a power of two from \<open>2 ^ 1024\<close> on is beyond every double, and the sign of a zero is kept.
\<close>

lemma parseInt10_rounds:
  "parseInt10 (js ''9007199254740993'') = Num 9007199254740992 \<and>
   parseInt10 (js ''9007199254740995'') = Num 9007199254740996 \<and>
   parseInt10 (js ''-0'') = NegZero \<and>
   parseInt10 (js '' +12px'') = Num 12"
  by (simp add: parseInt10_def roundToDouble_def bitLength.simps is_space_def is_digit_def
      digitsValue_def js_def Let_def)

lemma bitLength_power: "bitLength (2 ^ k) = Suc k"
  by (induction k) (simp_all add: bitLength.simps)

lemma roundToDouble_power:
  assumes k: "53 \<le> k"
  shows "roundToDouble (2 ^ k) = (if 1024 \<le> k then None else Some (2 ^ k))"
proof -
  have a: "\<not> (2::nat) ^ k < 2 ^ 53" using k by (simp only: power_strict_increasing_iff)
  have s: "bitLength (2 ^ k) - 53 = k - 52" by (simp add: bitLength_power)
  have e: "k = 52 + (k - 52)" using k by simp
  have p: "(2::nat) ^ k = 2 ^ 52 * 2 ^ (k - 52)" by (subst e) (simp only: power_add)
  have q: "(2::nat) ^ k div 2 ^ (k - 52) = 2 ^ 52" by (subst p) simp
  have r: "(2::nat) ^ k mod 2 ^ (k - 52) = 0" by (subst p) simp
  have ev: "even ((2::nat) ^ 52)" by simp
  have c: "((2::nat) ^ 1024 \<le> 2 ^ k) = (1024 \<le> k)" by (simp only: power_increasing_iff)
  have "roundToDouble (2 ^ k) =
     (if (2::nat) ^ 1024 \<le> 2 ^ 52 * 2 ^ (k - 52) then None else Some (2 ^ 52 * 2 ^ (k - 52)))"
    unfolding roundToDouble_def Let_def s q r using a ev by (simp only: if_False) simp
  then show ?thesis unfolding p[symmetric] c .
qed

text \<open>
  C9, at concrete responses with status 429. The header \<^verbatim>\<open>retry-after: 60\<close> gives
  \<^verbatim>\<open>retryAfter = 60\<close>, and no header gives an absent \<^verbatim>\<open>retryAfter\<close>. A header that
  is not a number (here an HTTP date, which the header may hold) gives \<^verbatim>\<open>NaN\<close>, not an
  absent value: \<^verbatim>\<open>parseInt\<close> does not throw, so the \<^verbatim>\<open>catch\<close> that would return
  \<^verbatim>\<open>undefined\<close> is never entered.
\<close>

theorem retry_after_values:
  "e_retryAfter (handleErrorResponse
      \<lparr>r_status = 429, r_headers = [(js ''retry-after'', js ''60'')], r_json = None\<rparr>) = Some (Num 60)
   \<and> e_retryAfter (handleErrorResponse
      \<lparr>r_status = 429, r_headers = [], r_json = None\<rparr>) = None
   \<and> e_retryAfter (handleErrorResponse
      \<lparr>r_status = 429, r_headers = [(js ''retry-after'', js ''Wed, 21 Oct 2015 07:28:00 GMT'')],
       r_json = None\<rparr>) = Some NaN
   \<and> e_name (handleErrorResponse
      \<lparr>r_status = 429, r_headers = [(js ''retry-after'', js ''Wed, 21 Oct 2015 07:28:00 GMT'')],
       r_json = None\<rparr>) = js ''TooManyRequestsError''"
  by (simp add: handleErrorResponse_def errorEnvelope_def orElse_def truthy_def extractHeaders_def
      toLowerCase_def new_TooManyRequestsError_def new_RateLimitError_def new_HAIError_def
      getRetryAfterFromHeaders_def parseInt10_def roundToDouble_def is_space_def is_digit_def
      digitsValue_def js_def Let_def)

section \<open>Claims about the event framer\<close>

lemma processLines_append:
  "processLines p b (xs @ ys) =
     (case processLines p b xs of
        (cs, Continue) \<Rightarrow> (case processLines p b ys of (cs', out) \<Rightarrow> (cs @ cs', out))
      | (cs, out) \<Rightarrow> (cs, out))"
  by (induction xs) (auto split: prod.splits outcome.splits sum.splits)

lemma readLoop_append:
  "readLoop p b (xs @ ys) =
     (case readLoop p b xs of
        (cs, Continue) \<Rightarrow> (case readLoop p b ys of (cs', out) \<Rightarrow> (cs @ cs', out))
      | (cs, out) \<Rightarrow> (cs, out))"
  by (induction xs) (auto split: prod.splits outcome.splits)

lemma splitOn_not_Nil: "splitOn sep s \<noteq> []"
  by (induction s) (auto split: list.splits)

lemma splitOn_separator: "splitOn sep (a @ sep # b) = splitOn sep a @ splitOn sep b"
  by (induction a) (auto simp: splitOn_not_Nil split: list.splits)

lemma trim_Nil [simp]: "trim [] = []"
  by (simp add: trim_def)

lemma data_line_not_blank: "startsWith line (js ''data: '') \<Longrightarrow> trim line \<noteq> []"
proof -
  assume "startsWith line (js ''data: '')"
  then obtain rest where l: "line = 100 # rest" by (auto simp: startsWith_def prefix_def js_def)
  then have "dropWhile is_space line = line" by (simp add: is_space_def)
  moreover have "\<exists>x \<in> set (rev line). \<not> is_space x" using l by (auto simp: is_space_def)
  ultimately show ?thesis by (simp add: trim_def)
qed

text \<open>
  C5, as the code has it. When the reads before were consumed without a return or an
  error, and a read holds, after lines that were consumed likewise, a line that starts
  with \<^verbatim>\<open>data: \<close>, is not the sentinel \<^verbatim>\<open>data: [DONE]\<close> and whose payload
  \<^verbatim>\<open>JSON.parse\<close> rejects, the generator yields the chunks decoded so far and then
  throws: nothing after the line is decoded, whatever follows. The error is an instance
  of the base class, \<^verbatim>\<open>new HAIError('Error parsing stream: ...')\<close>, with the name
  \<^verbatim>\<open>HAIError\<close>; errors.ts has no class for stream decoding.
\<close>

theorem malformed_payload_fatal:
  "readLoop JSON_parse buildChunk before = (chunks0, Continue) \<Longrightarrow>
   splitOn 10 v = earlier @ line # later \<Longrightarrow>
   processLines JSON_parse buildChunk earlier = (chunks1, Continue) \<Longrightarrow>
   startsWith line (js ''data: '') \<Longrightarrow> trim line \<noteq> js ''data: [DONE]'' \<Longrightarrow>
   JSON_parse (drop 6 line) = Inl err \<Longrightarrow>
   handleStreamResponse JSON_parse buildChunk (before @ v # after) =
     (chunks0 @ chunks1, Some (new_HAIError (js ''Error parsing stream: '' @ err) None None)) \<and>
   e_name (new_HAIError (js ''Error parsing stream: '' @ err) None None) = js ''HAIError''"
proof -
  assume b: "readLoop JSON_parse buildChunk before = (chunks0, Continue)"
    and s: "splitOn 10 v = earlier @ line # later"
    and e: "processLines JSON_parse buildChunk earlier = (chunks1, Continue)"
    and d: "startsWith line (js ''data: '')" and n: "trim line \<noteq> js ''data: [DONE]''"
    and j: "JSON_parse (drop 6 line) = Inl err"
  let ?e = "new_HAIError (js ''Error parsing stream: '' @ err) None None"
  have "processLines JSON_parse buildChunk (line # later) = ([], Throw ?e)"
    using d n j data_line_not_blank[OF d] by simp
  with e s have "processLines JSON_parse buildChunk (splitOn 10 v) = (chunks1, Throw ?e)"
    by (simp add: processLines_append)
  then have "readLoop JSON_parse buildChunk (v # after) = (chunks1, Throw ?e)" by simp
  with b have "readLoop JSON_parse buildChunk (before @ v # after) = (chunks0 @ chunks1, Throw ?e)"
    by (simp add: readLoop_append)
  then show ?thesis by (simp add: handleStreamResponse_def new_HAIError_def)
qed

lemmas eval_framer =
  handleStreamResponse_def sampleParse_def sampleBuild_def trim_def is_space_def startsWith_def
  js_def

theorem malformed_payload_fatal_witness:
  "\<forall>errorText.
     handleStreamResponse (sampleParse errorText) sampleBuild
       [js ''data: {}\<newline>'', js ''data: {}\<newline>data: {\<newline>data: {}\<newline>'', js ''data: {}\<newline>''] =
     ([chunkOf [], chunkOf []],
      Some (new_HAIError (js ''Error parsing stream: '' @ errorText) None None))"
proof
  fix errorText
  let ?parse = "sampleParse errorText"
  have b: "readLoop ?parse sampleBuild [js ''data: {}\<newline>''] = ([chunkOf []], Continue)"
    by (simp add: eval_framer)
  have s: "splitOn 10 (js ''data: {}\<newline>data: {\<newline>data: {}\<newline>'') =
     [js ''data: {}''] @ js ''data: {'' # [js ''data: {}'', []]"
    by (simp add: js_def)
  have e: "processLines ?parse sampleBuild [js ''data: {}''] = ([chunkOf []], Continue)"
    by (simp add: eval_framer)
  have d: "startsWith (js ''data: {'') (js ''data: '')" by (simp add: startsWith_def js_def)
  have n: "trim (js ''data: {'') \<noteq> js ''data: [DONE]''" by (simp add: eval_framer)
  have j: "?parse (drop 6 (js ''data: {'')) = Inl errorText"
    by (simp add: sampleParse_def js_def)
  from malformed_payload_fatal[OF b s e d n j, of "[js ''data: {}\<newline>'']"]
  show "handleStreamResponse ?parse sampleBuild
       [js ''data: {}\<newline>'', js ''data: {}\<newline>data: {\<newline>data: {}\<newline>'', js ''data: {}\<newline>''] =
     ([chunkOf [], chunkOf []],
      Some (new_HAIError (js ''Error parsing stream: '' @ errorText) None None))"
    by simp
qed

text \<open>
  C5 as stated fails: the error thrown for the malformed payload \<^verbatim>\<open>{\<close> is not of a
  kind named StreamDecodeError.
\<close>

theorem malformed_payload_not_StreamDecodeError:
  "\<forall>errorText.
     map_option e_name (snd (handleStreamResponse (sampleParse errorText) sampleBuild [js ''data: {'']))
       \<noteq> Some (js ''StreamDecodeError'')"
  by (simp add: eval_framer new_HAIError_def)

lemma readLoop_single:
  "readLoop p b [v] =
     (case processLines p b (splitOn 10 v) of (cs, out) \<Rightarrow> (cs, out))"
  by (auto split: prod.splits outcome.splits)

lemma readLoop_rechunk:
  "(\<forall>r \<in> set (butlast reads). r = [] \<or> last r = 10) \<Longrightarrow>
   readLoop p b reads = readLoop p b [concat reads]"
proof (induction reads)
  case Nil
  show ?case by simp
next
  case (Cons r rs)
  show ?case
  proof (cases "rs = []")
    case True
    then show ?thesis by simp
  next
    case False
    with Cons.prems have r: "r = [] \<or> last r = 10" and rest: "\<forall>r \<in> set (butlast rs). r = [] \<or> last r = 10"
      by auto
    note IH = Cons.IH[OF rest]
    show ?thesis
    proof (cases "r = []")
      case True
      then show ?thesis using IH by (simp del: readLoop.simps(2) add: readLoop.simps(2)[of _ _ "[]"])
    next
      case ne: False
      with r obtain r' where r': "r = r' @ [10]" by (metis append_butlast_last_id)
      have 1: "splitOn 10 r = splitOn 10 r' @ [[]]" using splitOn_separator[of 10 r' "[]"] r' by simp
      have 2: "splitOn 10 (concat (r # rs)) = splitOn 10 r' @ splitOn 10 (concat rs)"
        using splitOn_separator[of 10 r' "concat rs"] r' by simp
      obtain cs out where A: "processLines p b (splitOn 10 r') = (cs, out)"
        by (cases "processLines p b (splitOn 10 r')") auto
      obtain cs' out' where B: "processLines p b (splitOn 10 (concat rs)) = (cs', out')"
        by (cases "processLines p b (splitOn 10 (concat rs))") auto
      have "readLoop p b (r # rs) = (case out of Continue \<Rightarrow> (cs @ cs', out') | _ \<Rightarrow> (cs, out))"
        using A B IH 1 by (simp add: processLines_append readLoop_single split: outcome.splits)
      also have "\<dots> = readLoop p b [concat (r # rs)]"
        using A B 2 by (simp add: processLines_append readLoop_single split: outcome.splits)
      finally show ?thesis .
    qed
  qed
qed

text \<open>
  C2, as the code has it. The framer keeps no buffer between reads: each read is split
  on line feeds by itself. When every read but the last is empty or ends with a line
  feed, so that no line is cut by a read boundary, the reads give the same chunks and
  the same outcome as the whole text in a single read.
\<close>

theorem framer_line_aligned_reads:
  "(\<forall>r \<in> set (butlast reads). r = [] \<or> last r = 10) \<Longrightarrow>
   handleStreamResponse JSON_parse buildChunk reads =
   handleStreamResponse JSON_parse buildChunk [concat reads]"
  by (simp add: handleStreamResponse_def readLoop_rechunk)

theorem framer_line_aligned_reads_witness:
  "\<forall>errorText.
     handleStreamResponse (sampleParse errorText) sampleBuild
       [js ''data: {}\<newline>'', js ''\<newline>data: {}\<newline>'', js ''data: [DONE]''] =
     handleStreamResponse (sampleParse errorText) sampleBuild
       [js ''data: {}\<newline>\<newline>data: {}\<newline>data: [DONE]'']
     \<and> handleStreamResponse (sampleParse errorText) sampleBuild
       [js ''data: {}\<newline>\<newline>data: {}\<newline>data: [DONE]''] =
     ([chunkOf [], chunkOf []], None)"
proof
  fix errorText
  let ?parse = "sampleParse errorText"
  have a: "\<forall>r \<in> set (butlast [js ''data: {}\<newline>'', js ''\<newline>data: {}\<newline>'', js ''data: [DONE]'']). r = [] \<or> last r = 10"
    by (simp add: js_def)
  have c: "concat [js ''data: {}\<newline>'', js ''\<newline>data: {}\<newline>'', js ''data: [DONE]''] =
     js ''data: {}\<newline>\<newline>data: {}\<newline>data: [DONE]''"
    by (simp add: js_def)
  have v: "handleStreamResponse ?parse sampleBuild [js ''data: {}\<newline>\<newline>data: {}\<newline>data: [DONE]''] =
     ([chunkOf [], chunkOf []], None)"
    by (simp add: eval_framer)
  from framer_line_aligned_reads[OF a, of ?parse sampleBuild] c v
  show "handleStreamResponse ?parse sampleBuild
       [js ''data: {}\<newline>'', js ''\<newline>data: {}\<newline>'', js ''data: [DONE]''] =
     handleStreamResponse ?parse sampleBuild
       [js ''data: {}\<newline>\<newline>data: {}\<newline>data: [DONE]'']
     \<and> handleStreamResponse ?parse sampleBuild
       [js ''data: {}\<newline>\<newline>data: {}\<newline>data: [DONE]''] =
     ([chunkOf [], chunkOf []], None)"
    by simp
qed

text \<open>
  C2 as stated fails. The line \<^verbatim>\<open>data: {}\<close> gives one chunk when it arrives in one
  read. Cut inside the prefix, neither piece starts with \<^verbatim>\<open>data: \<close> and the event is
  dropped without an error; cut inside the payload, the first piece is decoded alone and
  the stream fails.
\<close>

theorem split_data_line_lost:
  "\<forall>errorText.
     handleStreamResponse (sampleParse errorText) sampleBuild [js ''data: {}\<newline>''] =
       ([chunkOf []], None) \<and>
     handleStreamResponse (sampleParse errorText) sampleBuild [js ''da'', js ''ta: {}\<newline>''] =
       ([], None) \<and>
     handleStreamResponse (sampleParse errorText) sampleBuild [js ''data: {'', js ''}\<newline>''] =
       ([], Some (new_HAIError (js ''Error parsing stream: '' @ errorText) None None))"
  by (simp add: eval_framer)

end
